theory Spec2Isabelle
  imports Complex_Main
begin

section \<open>JavaScript numbers\<close>

text \<open>
  The indicator functions of \<^verbatim>\<open>src/bot.ts\<close> compute on JavaScript numbers. A number
  is modelled as an exact rational or one of the three special values of IEEE 754 that
  the code can produce (a division by zero, an arithmetic operation on \<^verbatim>\<open>undefined\<close>).
  Rounding, overflow and the sign of zero are outside the model; every property below is
  about control flow, list lengths, indices and the special values, none about rounding.
\<close>

datatype jsnum = Num rat | PosInf | NegInf | NaN

text \<open>What an expression of the code can hold: a number, \<^verbatim>\<open>undefined\<close> (an array read
  out of range) or \<^verbatim>\<open>null\<close> (the MACD pair on short input).\<close>

datatype jsval = Number jsnum | Undefined | Null

text \<open>ToNumber: \<^verbatim>\<open>undefined\<close> becomes NaN, \<^verbatim>\<open>null\<close> becomes 0.\<close>

fun to_number :: "jsval \<Rightarrow> jsnum" where
  "to_number (Number n) = n"
| "to_number Undefined = NaN"
| "to_number Null = Num 0"

fun js_neg :: "jsnum \<Rightarrow> jsnum" where
  "js_neg (Num a) = Num (- a)"
| "js_neg PosInf = NegInf"
| "js_neg NegInf = PosInf"
| "js_neg NaN = NaN"

fun js_add :: "jsnum \<Rightarrow> jsnum \<Rightarrow> jsnum" where
  "js_add NaN _ = NaN"
| "js_add _ NaN = NaN"
| "js_add (Num a) (Num b) = Num (a + b)"
| "js_add (Num a) b = b"
| "js_add a (Num b) = a"
| "js_add PosInf PosInf = PosInf"
| "js_add NegInf NegInf = NegInf"
| "js_add PosInf NegInf = NaN"
| "js_add NegInf PosInf = NaN"

definition js_sub :: "jsnum \<Rightarrow> jsnum \<Rightarrow> jsnum" where
  "js_sub a b = js_add a (js_neg b)"

text \<open>The sign of a number that is not NaN: \<open>-1\<close>, \<open>0\<close> or \<open>1\<close>.\<close>

fun js_sign :: "jsnum \<Rightarrow> int" where
  "js_sign (Num a) = (if a < 0 then - 1 else if a = 0 then 0 else 1)"
| "js_sign PosInf = 1"
| "js_sign NegInf = - 1"
| "js_sign NaN = 0"

fun js_mul :: "jsnum \<Rightarrow> jsnum \<Rightarrow> jsnum" where
  "js_mul NaN _ = NaN"
| "js_mul _ NaN = NaN"
| "js_mul (Num a) (Num b) = Num (a * b)"
| "js_mul a b =
     (if js_sign a * js_sign b = 0 then NaN
      else if js_sign a * js_sign b > 0 then PosInf else NegInf)"

fun js_div :: "jsnum \<Rightarrow> jsnum \<Rightarrow> jsnum" where
  "js_div NaN _ = NaN"
| "js_div _ NaN = NaN"
| "js_div (Num a) (Num b) =
     (if b = 0 then (if a = 0 then NaN else if a > 0 then PosInf else NegInf)
      else Num (a / b))"
| "js_div (Num a) b = Num 0"
| "js_div a (Num b) = (if b < 0 then js_neg a else a)"
| "js_div a b = NaN"

fun js_abs :: "jsnum \<Rightarrow> jsnum" where
  "js_abs (Num a) = Num \<bar>a\<bar>"
| "js_abs PosInf = PosInf"
| "js_abs NegInf = PosInf"
| "js_abs NaN = NaN"

text \<open>The comparison \<^verbatim>\<open>a < b\<close>: false as soon as one side is NaN.\<close>

fun js_lt :: "jsnum \<Rightarrow> jsnum \<Rightarrow> bool" where
  "js_lt NaN _ = False"
| "js_lt _ NaN = False"
| "js_lt (Num a) (Num b) = (a < b)"
| "js_lt NegInf b = (b \<noteq> NegInf)"
| "js_lt a PosInf = (a \<noteq> PosInf)"
| "js_lt a b = False"

definition js_gt :: "jsnum \<Rightarrow> jsnum \<Rightarrow> bool" where
  "js_gt a b = js_lt b a"

text \<open>\<^verbatim>\<open>a == b\<close> and \<^verbatim>\<open>a !== b\<close> on numbers: NaN equals nothing, itself included.\<close>

definition js_eq :: "jsnum \<Rightarrow> jsnum \<Rightarrow> bool" where
  "js_eq a b = (a \<noteq> NaN \<and> b \<noteq> NaN \<and> a = b)"

definition js_strict_neq :: "jsnum \<Rightarrow> jsnum \<Rightarrow> bool" where
  "js_strict_neq a b = (\<not> js_eq a b)"

text \<open>Truthiness, as \<^verbatim>\<open>&&\<close>, \<^verbatim>\<open>!\<close> and \<^verbatim>\<open>if\<close> read a value: \<^verbatim>\<open>null\<close>, \<^verbatim>\<open>undefined\<close>,
  NaN and 0 are falsy, every other number is truthy.\<close>

fun truthy :: "jsval \<Rightarrow> bool" where
  "truthy (Number (Num a)) = (a \<noteq> 0)"
| "truthy (Number NaN) = False"
| "truthy (Number _) = True"
| "truthy Undefined = False"
| "truthy Null = False"

text \<open>An array read \<^verbatim>\<open>xs[i]\<close>: \<^verbatim>\<open>undefined\<close> out of range, no exception.\<close>

definition js_index :: "jsnum list \<Rightarrow> nat \<Rightarrow> jsval" where
  "js_index xs i = (if i < length xs then Number (xs ! i) else Undefined)"

section \<open>MomentumSignal: calculateRSIv2 and calculateMACDv2\<close>

text \<open>\<^verbatim>\<open>calculateRSIv2\<close> (lines 158 to 199). \<open>rsi_delta\<close> is the first loop, \<open>rsi_sums\<close>
  the body of the second one (the first \<open>period\<close> deltas, read without a length check) and
  \<open>rsi_step\<close> the body of the Wilder smoothing loop, on the triple
  \<open>(cRSI, prevAvgGain, prevAvgLoss)\<close>.\<close>

definition rsi_delta :: "jsnum list \<Rightarrow> jsnum list" where
  "rsi_delta prices =
     map (\<lambda>i. js_sub (to_number (js_index prices i)) (to_number (js_index prices (i - 1))))
       [1..<length prices]"

definition rsi_sums :: "jsnum list \<Rightarrow> nat \<Rightarrow> jsnum \<times> jsnum \<Rightarrow> jsnum \<times> jsnum" where
  "rsi_sums delta i acc =
     (case acc of (gainSum, lossSum) \<Rightarrow>
        if js_gt (to_number (js_index delta i)) (Num 0)
        then (js_add gainSum (to_number (js_index delta i)), lossSum)
        else (gainSum, js_add lossSum (js_abs (to_number (js_index delta i)))))"

definition rsi_step :: "jsnum list \<Rightarrow> nat \<Rightarrow> jsnum \<times> jsnum \<times> jsnum \<Rightarrow> jsnum \<times> jsnum \<times> jsnum" where
  "rsi_step delta i acc =
     (case acc of (cRSI, prevAvgGain, prevAvgLoss) \<Rightarrow>
        let d = to_number (js_index delta i);
            gain = (if js_gt d (Num 0) then d else Num 0);
            loss = (if js_lt d (Num 0) then js_abs d else Num 0);
            avgGain = js_div (js_add (js_mul prevAvgGain (Num 13)) gain) (Num 14);
            avgLoss = js_div (js_add (js_mul prevAvgLoss (Num 13)) loss) (Num 14);
            RS = js_div avgGain avgLoss
        in (js_sub (Num 100) (js_div (Num 100) (js_add (Num 1) RS)), avgGain, avgLoss))"

definition calculateRSIv2 :: "jsnum list \<Rightarrow> jsnum" where
  "calculateRSIv2 prices =
     (let period = 14 :: nat;
          delta = rsi_delta prices;
          (gainSum, lossSum) = fold (rsi_sums delta) [0..<period] (Num 0, Num 0);
          initialAvgGain = js_div gainSum (Num 14);
          initialAvgLoss = js_div lossSum (Num 14)
      in fst (fold (rsi_step delta) [period..<length prices]
                (Num 0, initialAvgGain, initialAvgLoss)))"

text \<open>\<^verbatim>\<open>calculateMACDv2\<close> (lines 111 to 155). \<open>sma\<close> is
  \<^verbatim>\<open>data.slice(0, n).reduce((acc, val) => acc + val, 0) / n\<close>, \<open>ema_step\<close> one update
  \<^verbatim>\<open>(x - ema) * multiplier + ema\<close>, \<open>macd_line\<close> the loop from \<open>longPeriod\<close> that pushes
  \<open>shortEMA - longEMA\<close>, \<open>signal_seed\<close> the average of \<^verbatim>\<open>macdLine[0]\<close> to
  \<^verbatim>\<open>macdLine[signalPeriod - 1]\<close>, and \<open>signal_line\<close> the loop from \<open>signalPeriod\<close>.\<close>

record macd_result =
  macd :: jsval
  signal :: jsval

definition sma :: "jsnum list \<Rightarrow> nat \<Rightarrow> jsnum" where
  "sma data n = js_div (fold (\<lambda>val acc. js_add acc val) (take n data) (Num 0)) (Num (of_nat n))"

definition ema_step :: "jsnum \<Rightarrow> jsnum \<Rightarrow> jsnum \<Rightarrow> jsnum" where
  "ema_step multiplier x ema = js_add (js_mul (js_sub x ema) multiplier) ema"

definition macd_step :: "jsnum list \<Rightarrow> nat \<Rightarrow> jsnum list \<times> jsnum \<times> jsnum \<Rightarrow> jsnum list \<times> jsnum \<times> jsnum" where
  "macd_step data i acc =
     (case acc of (macdLine, shortEMA, longEMA) \<Rightarrow>
        let shortEMA' = ema_step (Num (2 / 13)) (to_number (js_index data i)) shortEMA;
            longEMA' = ema_step (Num (2 / 27)) (to_number (js_index data i)) longEMA
        in (macdLine @ [js_sub shortEMA' longEMA'], shortEMA', longEMA'))"

definition macd_line :: "jsnum list \<Rightarrow> jsnum list" where
  "macd_line data =
     fst (fold (macd_step data) [26..<length data] ([], sma data 12, sma data 26))"

definition signal_seed :: "jsnum list \<Rightarrow> jsnum" where
  "signal_seed macdLine =
     js_div (fold (\<lambda>i sum. js_add sum (to_number (js_index macdLine i))) [0..<9] (Num 0)) (Num 9)"

definition signal_step :: "jsnum list \<Rightarrow> nat \<Rightarrow> jsnum list \<times> jsnum \<Rightarrow> jsnum list \<times> jsnum" where
  "signal_step macdLine i acc =
     (case acc of (sig, signalEMA) \<Rightarrow>
        let signalEMA' = ema_step (Num (2 / 10)) (to_number (js_index macdLine i)) signalEMA
        in (sig @ [signalEMA'], signalEMA'))"

definition signal_line :: "jsnum list \<Rightarrow> jsnum list" where
  "signal_line macdLine =
     fst (fold (signal_step macdLine) [9..<length macdLine]
            ([signal_seed macdLine], signal_seed macdLine))"

definition calculateMACDv2 :: "jsnum list \<Rightarrow> macd_result" where
  "calculateMACDv2 data =
     (let shortPeriod = 12 :: nat; longPeriod = 26 :: nat; signalPeriod = 9 :: nat in
      if length data < longPeriod + signalPeriod - 1
      then \<lparr>macd = Null, signal = Null\<rparr>
      else let macdLine = macd_line data;
               sig = signal_line macdLine
           in \<lparr>macd = js_index macdLine (length macdLine - 1),
               signal = js_index sig (length sig - 1)\<rparr>)"

section \<open>Configuration and state of the bot\<close>

text \<open>The fields of \<^verbatim>\<open>BotConfig\<close> that the modelled methods read. Percentages and retry
  counts are whole numbers; \<open>quoteAmount\<close> is the raw amount of the \<^verbatim>\<open>TokenAmount\<close>, in
  the smallest unit of the quote token. The wallet, the tokens, the pool sizes, the
  slippages and the fee fields only reach the external collaborators.\<close>

record BotConfig =
  quoteAmount :: int
  maxTokensAtTheTime :: int
  useSnipeList :: bool
  autoBuyDelay :: nat
  autoSellDelay :: nat
  maxBuyRetries :: nat
  maxSellRetries :: nat
  takeProfit :: int
  stopLoss :: int
  trailingStopLoss :: bool
  skipSellingIfLostMoreThan :: int
  priceCheckInterval :: nat
  priceCheckDuration :: nat
  filterCheckInterval :: nat
  filterCheckDuration :: nat
  consecutiveMatchCount :: nat

datatype swap_direction = Buy | Sell

text \<open>The calls a method makes on its collaborators, in order: the trace of one run.\<close>

datatype bot_event =
    Acquired
  | Released
  | Slept nat
  | EvaluatedSellSignal nat
  | SwapAttempted swap_direction nat

text \<open>The mutable members of \<^verbatim>\<open>Bot\<close>: the semaphore (its number of free permits),
  \<^verbatim>\<open>sellExecutionCount\<close> and the map \<^verbatim>\<open>stopLoss\<close> from a base mint to the raw amount of
  its floor; \<open>trace\<close> records the calls.\<close>

record bot_state =
  semaphore :: int
  sellExecutionCount :: int
  stopLossMap :: "string \<rightharpoonup> int"
  trace :: "bot_event list"

datatype js_error = JsError string

text \<open>The semaphore is an object of the class \<^verbatim>\<open>Semaphore\<close> of the library async-mutex,
  built with \<^verbatim>\<open>maxTokensAtTheTime\<close> permits. The four methods the code calls: \<^verbatim>\<open>getValue\<close> is
  the number of free permits, \<^verbatim>\<open>isLocked\<close> holds when none is free, \<^verbatim>\<open>acquire\<close> takes one
  permit at once when one is free and waits otherwise (\<open>None\<close>), \<^verbatim>\<open>release\<close> gives one
  back.\<close>

definition getValue :: "bot_state \<Rightarrow> int" where
  "getValue st = semaphore st"

definition isLocked :: "bot_state \<Rightarrow> bool" where
  "isLocked st = (semaphore st \<le> 0)"

definition acquire :: "bot_state \<Rightarrow> bot_state option" where
  "acquire st =
     (if 0 < semaphore st
      then Some (st\<lparr>semaphore := semaphore st - 1, trace := trace st @ [Acquired]\<rparr>)
      else None)"

definition release :: "bot_state \<Rightarrow> bot_state" where
  "release st = st\<lparr>semaphore := semaphore st + 1, trace := trace st @ [Released]\<rparr>"

definition sleep :: "nat \<Rightarrow> bot_state \<Rightarrow> bot_state" where
  "sleep ms st = st\<lparr>trace := trace st @ [Slept ms]\<rparr>"

section \<open>EntryGate: waitForBuySignal\<close>

text \<open>What one tick of the loop gets from \<^verbatim>\<open>Liquidity.fetchInfo\<close> and
  \<^verbatim>\<open>Liquidity.computeAmountOut\<close>: an exception, or the price
  \<^verbatim>\<open>parseFloat(tokenPriceBN.toFixed(16))\<close>.\<close>

datatype price_obs = PriceFetchFailed | Price jsnum

definition push_price :: "jsnum list \<Rightarrow> jsnum \<Rightarrow> jsnum list" where
  "push_price prices p =
     (if length prices = 0 \<or> js_strict_neq p (to_number (js_index prices (length prices - 1)))
      then prices @ [p] else prices)"

definition buy_timesToCheck :: nat where
  "buy_timesToCheck = (10 * 60) div 2"

definition maxSignalWaitTries :: nat where
  "maxSignalWaitTries = 60"

text \<open>The two conditions of lines 242 and 247, on the RSI and the MACD pair of the tick.\<close>

definition earlyAbort :: "nat \<Rightarrow> jsnum \<Rightarrow> macd_result \<Rightarrow> bool" where
  "earlyAbort timesChecked currentRSI m =
     (timesChecked \<ge> maxSignalWaitTries \<and> js_eq currentRSI (Num 0) \<and> \<not> truthy (macd m))"

definition buyCondition :: "jsnum \<Rightarrow> macd_result \<Rightarrow> bool" where
  "buyCondition currentRSI m =
     (js_gt currentRSI (Num 0) \<and> js_lt currentRSI (Num 30) \<and> truthy (macd m) \<and> truthy (signal m)
      \<and> js_gt (to_number (macd m)) (to_number (signal m)))"

text \<open>One pass through the \<^verbatim>\<open>try\<close> block: the method returns, or the loop goes on after
  the sleeps listed (none when the fetch threw and the \<^verbatim>\<open>catch\<close> logged it).\<close>

datatype tick_outcome = TickReturn bool | TickContinue "nat list"

definition buy_signal_tick :: "nat \<Rightarrow> jsnum list \<Rightarrow> price_obs \<Rightarrow> tick_outcome \<times> jsnum list" where
  "buy_signal_tick timesChecked prices obs =
     (case obs of
        PriceFetchFailed \<Rightarrow> (TickContinue [], prices)
      | Price p \<Rightarrow>
          let prices' = push_price prices p;
              currentRSI = calculateRSIv2 prices';
              m = calculateMACDv2 prices'
          in if earlyAbort timesChecked currentRSI m then (TickReturn False, prices')
             else if buyCondition currentRSI m then (TickReturn True, prices')
             else (TickContinue [1000], prices'))"

record buy_signal_result =
  buySignal :: bool
  timesChecked :: nat
  slept :: "nat list"

text \<open>The \<^verbatim>\<open>do ... while (timesChecked < timesToCheck)\<close> loop; the \<^verbatim>\<open>finally\<close> block
  counts the tick on every way out of the \<^verbatim>\<open>try\<close> block.\<close>

function buy_signal_loop :: "(nat \<Rightarrow> price_obs) \<Rightarrow> nat \<Rightarrow> jsnum list \<Rightarrow> nat list \<Rightarrow> buy_signal_result" where
  "buy_signal_loop env n prices zs =
     (case buy_signal_tick n prices (env n) of
        (TickReturn b, prices') \<Rightarrow> \<lparr>buySignal = b, timesChecked = Suc n, slept = zs\<rparr>
      | (TickContinue ms, prices') \<Rightarrow>
          if Suc n < buy_timesToCheck
          then buy_signal_loop env (Suc n) prices' (zs @ ms)
          else \<lparr>buySignal = False, timesChecked = Suc n, slept = zs @ ms\<rparr>)"
  by pat_completeness auto
termination
  by (relation "measure (\<lambda>(env, n, prices, zs). buy_timesToCheck - n)") auto

text \<open>\<^verbatim>\<open>waitForBuySignal\<close> (lines 201 to 269). Of the configuration the method reads
  \<^verbatim>\<open>quoteToken\<close> only, for the quote it asks of the pool; the quote is the observation
  \<open>env\<close> gives for the tick.\<close>

definition waitForBuySignal :: "BotConfig \<Rightarrow> (nat \<Rightarrow> price_obs) \<Rightarrow> buy_signal_result" where
  "waitForBuySignal cfg env = buy_signal_loop env 0 [] []"

section \<open>Quality gate: filterMatch\<close>

text \<open>The measure of the polling loops whose bound is a quotient: the ticks left.\<close>

lemma ticks_left:
  fixes t :: rat
  assumes "of_nat (Suc n) < t"
  shows "nat \<lceil>t\<rceil> - Suc n < nat \<lceil>t\<rceil> - n"
proof -
  have "of_nat (Suc n) < (of_int \<lceil>t\<rceil> :: rat)"
    using assms le_of_int_ceiling [of t] by linarith
  then have "int (Suc n) < \<lceil>t\<rceil>"
    by (metis of_int_less_iff of_int_of_nat_eq)
  then show ?thesis
    by linarith
qed

text \<open>\<^verbatim>\<open>filterMatch\<close> (lines 573 to 613). \<open>fenv n\<close> is what \<^verbatim>\<open>filters.execute\<close> returns at
  tick \<open>n\<close>, \<open>None\<close> when it throws: the loop has a \<^verbatim>\<open>finally\<close> and no \<^verbatim>\<open>catch\<close>, so the
  exception leaves the method. \<open>timesToCheck\<close> is the quotient of two numbers, not rounded.\<close>

function filter_loop :: "BotConfig \<Rightarrow> (nat \<Rightarrow> bool option) \<Rightarrow> rat \<Rightarrow> nat \<Rightarrow> nat \<Rightarrow> js_error + bool" where
  "filter_loop cfg fenv timesToCheck n matchCount =
     (case fenv n of
        None \<Rightarrow> Inl (JsError ''filters.execute'')
      | Some shouldBuy \<Rightarrow>
          if shouldBuy \<and> consecutiveMatchCount cfg \<le> matchCount + 1 then Inr True
          else if of_nat (Suc n) < timesToCheck
               then filter_loop cfg fenv timesToCheck (Suc n) (if shouldBuy then matchCount + 1 else 0)
               else Inr False)"
  by pat_completeness auto
termination
  by (relation "measure (\<lambda>(cfg, fenv, timesToCheck, n, matchCount). nat \<lceil>timesToCheck\<rceil> - n)")
    (auto intro: ticks_left)

definition filterMatch :: "BotConfig \<Rightarrow> (nat \<Rightarrow> bool option) \<Rightarrow> js_error + bool" where
  "filterMatch cfg fenv =
     (if filterCheckInterval cfg = 0 \<or> filterCheckDuration cfg = 0 then Inr True
      else filter_loop cfg fenv
             (of_nat (filterCheckDuration cfg) / of_nat (filterCheckInterval cfg)) 0 0)"

section \<open>ExitMonitor: waitForSellSignal\<close>

text \<open>Amounts are \<^verbatim>\<open>TokenAmount\<close> values of the quote token: whole numbers of raw units,
  which \<^verbatim>\<open>add\<close>, \<^verbatim>\<open>subtract\<close>, \<^verbatim>\<open>lt\<close> and \<^verbatim>\<open>gt\<close> treat exactly. The code takes a
  percentage as \<^verbatim>\<open>a.mul(p).numerator.div(new BN(100))\<close>: the product of the raw amount
  and the percentage, divided by 100 with \<^verbatim>\<open>BN.div\<close>, which cuts the quotient towards
  zero.\<close>

definition bn_div :: "int \<Rightarrow> int \<Rightarrow> int" where
  "bn_div a b = sgn a * sgn b * (\<bar>a\<bar> div \<bar>b\<bar>)"

definition percentOf :: "int \<Rightarrow> int \<Rightarrow> int" where
  "percentOf amount percent = bn_div (amount * percent) 100"

text \<open>The three thresholds of lines 621 to 629, 656 to 658 and 671 to 675.\<close>

definition takeProfitAmount :: "BotConfig \<Rightarrow> int" where
  "takeProfitAmount cfg = quoteAmount cfg + percentOf (quoteAmount cfg) (takeProfit cfg)"

definition initialStopLoss :: "BotConfig \<Rightarrow> int" where
  "initialStopLoss cfg = quoteAmount cfg - percentOf (quoteAmount cfg) (stopLoss cfg)"

definition trailingStopLossOf :: "BotConfig \<Rightarrow> int \<Rightarrow> int" where
  "trailingStopLossOf cfg amountOut = amountOut - percentOf amountOut (stopLoss cfg)"

definition stopSellingAmount :: "BotConfig \<Rightarrow> int" where
  "stopSellingAmount cfg = percentOf (quoteAmount cfg) (100 - skipSellingIfLostMoreThan cfg)"

text \<open>What one tick gets from the pool: an exception, or the raw \<^verbatim>\<open>amountOut\<close> of selling
  the whole balance.\<close>

datatype quote_obs = QuoteFetchFailed | Quote int

datatype sell_tick_outcome = SellContinue | SellBreak | SellReturnFalse

text \<open>One pass through the \<^verbatim>\<open>try\<close> block of lines 641 to 726, on the local \<^verbatim>\<open>stopLoss\<close>
  (\<open>stopLossFloor\<close>) and the map: the trailing update, the drawdown abort, the stop loss, the
  take profit, in the order of the code.\<close>

definition sell_tick ::
  "BotConfig \<Rightarrow> string \<Rightarrow> int \<Rightarrow> (string \<rightharpoonup> int) \<Rightarrow> quote_obs
    \<Rightarrow> sell_tick_outcome \<times> int \<times> (string \<rightharpoonup> int)" where
  "sell_tick cfg mint stopLossFloor m obs =
     (case obs of
        QuoteFetchFailed \<Rightarrow> (SellContinue, stopLossFloor, m)
      | Quote amountOut \<Rightarrow>
          let raised = (trailingStopLoss cfg \<and> trailingStopLossOf cfg amountOut > stopLossFloor);
              stopLossFloor1 = (if raised then trailingStopLossOf cfg amountOut else stopLossFloor);
              m1 = (if raised then m(mint \<mapsto> trailingStopLossOf cfg amountOut) else m)
          in if skipSellingIfLostMoreThan cfg > 0 \<and> amountOut < stopSellingAmount cfg
             then (SellReturnFalse, stopLossFloor1, m1(mint := None))
             else if amountOut < stopLossFloor1 then (SellBreak, stopLossFloor1, m1(mint := None))
             else if amountOut > takeProfitAmount cfg then (SellBreak, stopLossFloor1, m1(mint := None))
             else (SellContinue, stopLossFloor1, m1))"

function sell_loop ::
  "BotConfig \<Rightarrow> string \<Rightarrow> (nat \<Rightarrow> quote_obs) \<Rightarrow> rat \<Rightarrow> nat \<Rightarrow> int \<Rightarrow> (string \<rightharpoonup> int)
    \<Rightarrow> bool \<times> (string \<rightharpoonup> int)" where
  "sell_loop cfg mint env timesToCheck n stopLossFloor m =
     (case sell_tick cfg mint stopLossFloor m (env n) of
        (SellReturnFalse, stopLossFloor', m') \<Rightarrow> (False, m')
      | (SellBreak, stopLossFloor', m') \<Rightarrow> (True, m')
      | (SellContinue, stopLossFloor', m') \<Rightarrow>
          if of_nat (Suc n) < timesToCheck
          then sell_loop cfg mint env timesToCheck (Suc n) stopLossFloor' m'
          else (True, m'))"
  by pat_completeness auto
termination
  by (relation "measure (\<lambda>(cfg, mint, env, timesToCheck, n, stopLossFloor, m). nat \<lceil>timesToCheck\<rceil> - n)")
    (auto intro: ticks_left)

text \<open>\<^verbatim>\<open>waitForSellSignal\<close> (lines 615 to 735): the result and the map afterwards.\<close>

definition waitForSellSignal ::
  "BotConfig \<Rightarrow> string \<Rightarrow> (nat \<Rightarrow> quote_obs) \<Rightarrow> (string \<rightharpoonup> int) \<Rightarrow> bool \<times> (string \<rightharpoonup> int)" where
  "waitForSellSignal cfg mint env m =
     (if priceCheckDuration cfg = 0 \<or> priceCheckInterval cfg = 0 then (True, m)
      else let timesToCheck = of_nat (priceCheckDuration cfg) / of_nat (priceCheckInterval cfg);
               stopLossFloor = (case m mint of None \<Rightarrow> initialStopLoss cfg | Some v \<Rightarrow> v);
               m0 = (case m mint of None \<Rightarrow> m(mint \<mapsto> initialStopLoss cfg) | Some v \<Rightarrow> m)
           in sell_loop cfg mint env timesToCheck 0 stopLossFloor m0)"

section \<open>ExecutionPipeline: buy and sell\<close>

text \<open>What \<^verbatim>\<open>swap\<close> does at one attempt: it throws, or \<^verbatim>\<open>executeAndConfirm\<close> returns a
  result that is confirmed or not.\<close>

datatype swap_outcome = SwapThrows | SwapResult bool

text \<open>The admission check of lines 284 to 286.\<close>

definition numberOfActionsBeingProcessed :: "BotConfig \<Rightarrow> bot_state \<Rightarrow> int" where
  "numberOfActionsBeingProcessed cfg st =
     maxTokensAtTheTime cfg - getValue st + sellExecutionCount st"

definition buy_denied :: "BotConfig \<Rightarrow> bot_state \<Rightarrow> bool" where
  "buy_denied cfg st =
     (isLocked st \<or> numberOfActionsBeingProcessed cfg st \<ge> maxTokensAtTheTime cfg)"

text \<open>The collaborators of one call of \<^verbatim>\<open>buy\<close>: the snipe list, the market lookup with the
  token address and the pool keys (\<open>resolveFails\<close> when one of them throws), the filters,
  the prices of the entry gate, \<^verbatim>\<open>Date.now()\<close> (\<open>clock 0\<close> is \<open>startTime\<close>, \<open>clock (i + 1)\<close>
  the reading of attempt \<open>i\<close>) and the swaps of the attempts.\<close>

record buy_env =
  inSnipeList :: bool
  resolveFails :: bool
  filterResults :: "nat \<Rightarrow> bool option"
  buyPrices :: "nat \<Rightarrow> price_obs"
  clock :: "nat \<Rightarrow> int"
  buySwap :: "nat \<Rightarrow> swap_outcome"

text \<open>The ways out of \<^verbatim>\<open>buy\<close>, in the order of the code; \<open>BuyFailed\<close> is the outer
  \<^verbatim>\<open>catch\<close>.\<close>

datatype buy_exit =
    NotInSnipeList
  | TooManyTokens
  | FilteredOut
  | NoBuySignal
  | DeadlineExceeded
  | BuyConfirmed
  | BuyRetriesExhausted
  | BuyFailed js_error

text \<open>A call returns with one of the exits, throws, or waits for a permit for ever.\<close>

datatype buy_outcome = BuyReturned buy_exit | BuyThrew js_error | BuyBlocked

text \<open>The retry loop of lines 320 to 371: the deadline returns, a confirmed result
  breaks, an unconfirmed result and an exception of \<^verbatim>\<open>swap\<close> (caught inside the loop) go
  to the next attempt.\<close>

function buy_retry :: "BotConfig \<Rightarrow> buy_env \<Rightarrow> int \<Rightarrow> nat \<Rightarrow> bot_state \<Rightarrow> buy_exit \<times> bot_state" where
  "buy_retry cfg env startTime i st =
     (if i < maxBuyRetries cfg then
        (if clock env (Suc i) - startTime > 10000 then (DeadlineExceeded, st)
         else case buySwap env i of
                SwapThrows \<Rightarrow>
                  buy_retry cfg env startTime (Suc i) (st\<lparr>trace := trace st @ [SwapAttempted Buy i]\<rparr>)
              | SwapResult confirmed \<Rightarrow>
                  if confirmed then (BuyConfirmed, st\<lparr>trace := trace st @ [SwapAttempted Buy i]\<rparr>)
                  else buy_retry cfg env startTime (Suc i)
                         (st\<lparr>trace := trace st @ [SwapAttempted Buy i]\<rparr>))
      else (BuyRetriesExhausted, st))"
  by pat_completeness auto
termination
  by (relation "measure (\<lambda>(cfg, env, startTime, i, st). maxBuyRetries cfg - i)") auto

text \<open>The \<^verbatim>\<open>try\<close> block of lines 296 to 371: an exception that leaves it (\<open>Inl\<close>), or the
  exit it reaches.\<close>

definition buy_body :: "BotConfig \<Rightarrow> buy_env \<Rightarrow> bot_state \<Rightarrow> (js_error + buy_exit) \<times> bot_state" where
  "buy_body cfg env st =
     (if resolveFails env then (Inl (JsError ''market''), st)
      else case (if \<not> useSnipeList cfg then filterMatch cfg (filterResults env) else Inr True) of
             Inl e \<Rightarrow> (Inl e, st)
           | Inr match \<Rightarrow>
               if \<not> match then (Inr FilteredOut, st)
               else let r = waitForBuySignal cfg (buyPrices env);
                        st1 = st\<lparr>trace := trace st @ map Slept (slept r)\<rparr>
                    in if \<not> buySignal r then (Inr NoBuySignal, st1)
                       else case buy_retry cfg env (clock env 0) 0 st1 of
                              (x, st2) \<Rightarrow> (Inr x, st2))"

text \<open>\<^verbatim>\<open>buy\<close> (lines 271 to 377): the two early returns, the permit, then the \<^verbatim>\<open>try\<close> block
  with its \<^verbatim>\<open>catch\<close> (which logs) and its \<^verbatim>\<open>finally\<close> (which releases).\<close>

definition buy :: "BotConfig \<Rightarrow> buy_env \<Rightarrow> bot_state \<Rightarrow> buy_outcome \<times> bot_state" where
  "buy cfg env st =
     (if useSnipeList cfg \<and> \<not> inSnipeList env then (BuyReturned NotInSnipeList, st)
      else let st0 = (if autoBuyDelay cfg > 0 then sleep (autoBuyDelay cfg) st else st)
           in if buy_denied cfg st0 then (BuyReturned TooManyTokens, st0)
              else case acquire st0 of
                     None \<Rightarrow> (BuyBlocked, st0)
                   | Some st1 \<Rightarrow>
                       (case buy_body cfg env st1 of
                          (Inl e, st2) \<Rightarrow> (BuyReturned (BuyFailed e), release st2)
                        | (Inr x, st2) \<Rightarrow> (BuyReturned x, release st2)))"

text \<open>The collaborators of one call of \<^verbatim>\<open>sell\<close>: the mint of the account, the pool lookup,
  the raw balance, the market lookup with the pool keys, the quotes of the exit monitor
  and the swaps of the attempts.\<close>

datatype pool_lookup = PoolLookupThrows | PoolNotFound | PoolFound

record sell_env =
  sellMint :: string
  poolData :: pool_lookup
  rawAmount :: int
  marketFails :: bool
  sellQuotes :: "nat \<Rightarrow> quote_obs"
  sellSwap :: "nat \<Rightarrow> swap_outcome"

datatype sell_exit =
    NoPoolData
  | EmptyBalance
  | SellVetoed
  | SellConfirmed
  | SellRetriesExhausted
  | SellFailed js_error

text \<open>The retry loop of lines 408 to 493. Attempt \<open>i < 1\<close> asks \<^verbatim>\<open>waitForSellSignal\<close> first and
  returns when the answer is no.\<close>

function sell_retry :: "BotConfig \<Rightarrow> sell_env \<Rightarrow> nat \<Rightarrow> bot_state \<Rightarrow> sell_exit \<times> bot_state" where
  "sell_retry cfg env i st =
     (if i < maxSellRetries cfg then
        (case (if i < 1
               then (case waitForSellSignal cfg (sellMint env) (sellQuotes env) (stopLossMap st) of
                       (shouldSell, m) \<Rightarrow>
                         (shouldSell, st\<lparr>stopLossMap := m, trace := trace st @ [EvaluatedSellSignal i]\<rparr>))
               else (True, st)) of
           (False, st1) \<Rightarrow> (SellVetoed, st1)
         | (True, st1) \<Rightarrow>
             (case sellSwap env i of
                SwapThrows \<Rightarrow> sell_retry cfg env (Suc i) (st1\<lparr>trace := trace st1 @ [SwapAttempted Sell i]\<rparr>)
              | SwapResult confirmed \<Rightarrow>
                  if confirmed then (SellConfirmed, st1\<lparr>trace := trace st1 @ [SwapAttempted Sell i]\<rparr>)
                  else sell_retry cfg env (Suc i) (st1\<lparr>trace := trace st1 @ [SwapAttempted Sell i]\<rparr>)))
      else (SellRetriesExhausted, st))"
  by pat_completeness auto
termination
  by (relation "measure (\<lambda>(cfg, env, i, st). maxSellRetries cfg - i)") auto

definition sell_body :: "BotConfig \<Rightarrow> sell_env \<Rightarrow> bot_state \<Rightarrow> sell_exit \<times> bot_state" where
  "sell_body cfg env st =
     (case poolData env of
        PoolLookupThrows \<Rightarrow> (SellFailed (JsError ''pool''), st)
      | PoolNotFound \<Rightarrow> (NoPoolData, st)
      | PoolFound \<Rightarrow>
          if rawAmount env = 0 then (EmptyBalance, st)
          else let st0 = (if autoSellDelay cfg > 0 then sleep (autoSellDelay cfg) st else st)
               in if marketFails env then (SellFailed (JsError ''market''), st0)
                  else sell_retry cfg env 0 st0)"

text \<open>\<^verbatim>\<open>sell\<close> (lines 379 to 499): the counter goes up on entry and down in the
  \<^verbatim>\<open>finally\<close> block.\<close>

definition sell_enter :: "bot_state \<Rightarrow> bot_state" where
  "sell_enter st = st\<lparr>sellExecutionCount := sellExecutionCount st + 1\<rparr>"

definition sell_leave :: "bot_state \<Rightarrow> bot_state" where
  "sell_leave st = st\<lparr>sellExecutionCount := sellExecutionCount st - 1\<rparr>"

definition sell :: "BotConfig \<Rightarrow> sell_env \<Rightarrow> bot_state \<Rightarrow> sell_exit \<times> bot_state" where
  "sell cfg env st =
     (case sell_body cfg env (sell_enter st) of (x, st1) \<Rightarrow> (x, sell_leave st1))"

section \<open>AdmissionController: buys and sells in flight\<close>






text \<open>The state the constructor leaves: \<^verbatim>\<open>new Semaphore(config.maxTokensAtTheTime)\<close>, no
  sell in flight, an empty map.\<close>

definition initial_state :: "BotConfig \<Rightarrow> bot_state" where
  "initial_state cfg =
     \<lparr>semaphore = maxTokensAtTheTime cfg, sellExecutionCount = 0,
      stopLossMap = Map.empty, trace = []\<rparr>"

section \<open>The history of a stop-loss entry\<close>

text \<open>The entry of the map for \<open>mint\<close> after each tick of \<open>sell_loop\<close>, oldest first:
  the same recursion, keeping what the loop leaves in the map at every tick.\<close>

function floor_history ::
  "BotConfig \<Rightarrow> string \<Rightarrow> (nat \<Rightarrow> quote_obs) \<Rightarrow> rat \<Rightarrow> nat \<Rightarrow> int \<Rightarrow> (string \<rightharpoonup> int)
    \<Rightarrow> int option list" where
  "floor_history cfg mint env timesToCheck n stopLossFloor m =
     (case sell_tick cfg mint stopLossFloor m (env n) of
        (SellContinue, stopLossFloor', m') \<Rightarrow>
          m' mint # (if of_nat (Suc n) < timesToCheck
                     then floor_history cfg mint env timesToCheck (Suc n) stopLossFloor' m'
                     else [])
      | (out, stopLossFloor', m') \<Rightarrow> [m' mint])"
  by pat_completeness auto
termination
  by (relation "measure (\<lambda>(cfg, mint, env, timesToCheck, n, stopLossFloor, m). nat \<lceil>timesToCheck\<rceil> - n)")
    (auto intro: ticks_left)

section \<open>The ticks of the exit monitor before a given one\<close>

text \<open>The floor and the map with which \<^verbatim>\<open>waitForSellSignal\<close> enters its loop (lines 626
  to 634): the entry of the mint when the map has one, the initial stop loss otherwise,
  which is then stored.\<close>

definition floor_at_entry :: "BotConfig \<Rightarrow> string \<Rightarrow> (string \<rightharpoonup> int) \<Rightarrow> int" where
  "floor_at_entry cfg mint m = (case m mint of None \<Rightarrow> initialStopLoss cfg | Some v \<Rightarrow> v)"

definition map_at_entry :: "BotConfig \<Rightarrow> string \<Rightarrow> (string \<rightharpoonup> int) \<Rightarrow> (string \<rightharpoonup> int)" where
  "map_at_entry cfg mint m = (case m mint of None \<Rightarrow> m(mint \<mapsto> initialStopLoss cfg) | Some v \<Rightarrow> m)"

text \<open>The floor and the map after the ticks \<open>0\<close> to \<open>k - 1\<close> of the loop, when each of them
  reached the end of the \<^verbatim>\<open>try\<close> block or failed to fetch a quote, so that the loop went
  on; \<open>None\<close> when one of them left the loop.\<close>

fun sell_ticks ::
  "BotConfig \<Rightarrow> string \<Rightarrow> (nat \<Rightarrow> quote_obs) \<Rightarrow> nat \<Rightarrow> int \<Rightarrow> (string \<rightharpoonup> int)
    \<Rightarrow> (int \<times> (string \<rightharpoonup> int)) option" where
  "sell_ticks cfg mint env 0 stopLossFloor m = Some (stopLossFloor, m)"
| "sell_ticks cfg mint env (Suc k) stopLossFloor m =
     (case sell_ticks cfg mint env k stopLossFloor m of
        None \<Rightarrow> None
      | Some (stopLossFloor', m') \<Rightarrow>
          (case sell_tick cfg mint stopLossFloor' m' (env k) of
             (SellContinue, stopLossFloor'', m'') \<Rightarrow> Some (stopLossFloor'', m'')
           | (out, stopLossFloor'', m'') \<Rightarrow> None))"

section \<open>An example configuration and example observations\<close>

text \<open>One quote token in raw units (9 decimals), take profit 20 percent, stop loss 10
  percent with trailing, drawdown abort at 50 percent, two ticks of exit monitoring and
  of filtering, capacity 1, three attempts on each side.\<close>

definition demo_config :: BotConfig where
  "demo_config =
     \<lparr>quoteAmount = 1000000000, maxTokensAtTheTime = 1, useSnipeList = False,
      autoBuyDelay = 0, autoSellDelay = 0, maxBuyRetries = 3, maxSellRetries = 3,
      takeProfit = 20, stopLoss = 10, trailingStopLoss = True,
      skipSellingIfLostMoreThan = 50, priceCheckInterval = 5000, priceCheckDuration = 10000,
      filterCheckInterval = 5000, filterCheckDuration = 10000, consecutiveMatchCount = 1\<rparr>"

text \<open>Quotes for the exit monitor: a rise with one failed fetch, a quote that stays at
  the initial amount, a quote that has fallen to 0.4 of it.\<close>

definition rising_quotes :: "nat \<Rightarrow> quote_obs" where
  "rising_quotes n = (if n = 0 then Quote 1000000000 else if n = 1 then Quote 1100000000
     else if n = 2 then QuoteFetchFailed else Quote 1050000000)"

definition flat_quotes :: "nat \<Rightarrow> quote_obs" where
  "flat_quotes n = Quote 1000000000"

definition crashed_quotes :: "nat \<Rightarrow> quote_obs" where
  "crashed_quotes n = Quote 400000000"

text \<open>Three calls of \<^verbatim>\<open>sell\<close> with a balance of 5 raw units: the pool cache has no entry
  for the mint; the market lookup throws; the swap throws once and is never confirmed.\<close>

definition no_pool_env :: sell_env where
  "no_pool_env =
     \<lparr>sellMint = ''MINT'', poolData = PoolNotFound, rawAmount = 5, marketFails = False,
      sellQuotes = flat_quotes, sellSwap = (\<lambda>i. SwapResult True)\<rparr>"

definition no_market_env :: sell_env where
  "no_market_env =
     \<lparr>sellMint = ''MINT'', poolData = PoolFound, rawAmount = 5, marketFails = True,
      sellQuotes = flat_quotes, sellSwap = (\<lambda>i. SwapResult True)\<rparr>"

definition failing_sell_env :: sell_env where
  "failing_sell_env =
     \<lparr>sellMint = ''MINT'', poolData = PoolFound, rawAmount = 5, marketFails = False,
      sellQuotes = flat_quotes, sellSwap = (\<lambda>i. if i = 0 then SwapThrows else SwapResult False)\<rparr>"

text \<open>A quote amount with an odd number of raw units, for which half of it is not a
  whole number of raw units, and a quote that stays at 500000000 raw units; a quote
  that rises to 1.1 of the initial amount and falls to 0.4 of it at the second tick;
  a call of \<^verbatim>\<open>sell\<close> on each of the two, with a balance of 5 raw units and a swap that is
  confirmed.\<close>

definition odd_config :: BotConfig where
  "odd_config = demo_config\<lparr>quoteAmount := 1000000001\<rparr>"

definition half_quotes :: "nat \<Rightarrow> quote_obs" where
  "half_quotes n = Quote 500000000"

definition late_crash_quotes :: "nat \<Rightarrow> quote_obs" where
  "late_crash_quotes n = (if n = 0 then Quote 1100000000 else Quote 400000000)"

definition half_sell_env :: sell_env where
  "half_sell_env =
     \<lparr>sellMint = ''MINT'', poolData = PoolFound, rawAmount = 5, marketFails = False,
      sellQuotes = half_quotes, sellSwap = (\<lambda>i. SwapResult True)\<rparr>"

definition late_crash_env :: sell_env where
  "late_crash_env =
     \<lparr>sellMint = ''MINT'', poolData = PoolFound, rawAmount = 5, marketFails = False,
      sellQuotes = late_crash_quotes, sellSwap = (\<lambda>i. SwapResult True)\<rparr>"

text \<open>A feed of prices for the entry gate: the prices of the list, one per tick, then
  fetches that fail.\<close>

definition price_feed :: "rat list \<Rightarrow> nat \<Rightarrow> price_obs" where
  "price_feed ps n = (if n < length ps then Price (Num (ps ! n)) else PriceFetchFailed)"

text \<open>Thirty-five whole prices, a jump and a long fall: at the 35th sample the RSI is
  about 26.3 and the MACD value is above the signal value, both negative.\<close>

definition oversold_prices :: "rat list" where
  "oversold_prices =
     [54, 55, 54, 55, 56, 55, 54, 55, 56, 55, 54, 53, 76, 73, 72, 73, 74, 71, 72, 71, 72, 71,
      69, 66, 63, 61, 59, 57, 56, 53, 50, 49, 47, 46, 44]"

text \<open>Thirty-four whole prices, then a fall to about 131.27 that brings the short and
  the long average together: the MACD value of the 35 samples is exactly 0, above a
  negative signal value, and the RSI is about 21.3.\<close>

definition zero_macd_prices :: "rat list" where
  "zero_macd_prices =
     [174, 176, 181, 182, 181, 188, 192, 195, 198, 199, 206, 210, 213, 216, 220, 221, 224,
      230, 235, 241, 240, 239, 245, 251, 254, 256, 258, 264, 268, 274, 280, 279, 275, 271,
      211693987859991605050378 / 1612705145977393529607]"


text \<open>A buy whose filters and entry gate say yes, whose first swap is not confirmed and
  whose second attempt starts 10001 ms after the first.\<close>

definition late_buy_env :: buy_env where
  "late_buy_env =
     \<lparr>inSnipeList = False, resolveFails = False, filterResults = (\<lambda>n. Some True),
      buyPrices = price_feed oversold_prices,
      clock = (\<lambda>k. if k < 2 then 0 else 10001),
      buySwap = (\<lambda>i. SwapResult False)\<rparr>"

section \<open>Reading a trace, a state and a number\<close>

text \<open>The events of a trace that are evaluations of the exit signal.\<close>

fun isSellSignalEvaluation :: "bot_event \<Rightarrow> bool" where
  "isSellSignalEvaluation (EvaluatedSellSignal i) = True"
| "isSellSignalEvaluation e = False"

text \<open>The events of a trace that are attempts to submit a swap transaction.\<close>

fun isSwapAttempt :: "bot_event \<Rightarrow> bool" where
  "isSwapAttempt (SwapAttempted d i) = True"
| "isSwapAttempt e = False"

text \<open>A step of a call that holds a permit and neither takes nor gives one: the trace
  grows by events other than \<open>Acquired\<close> and \<open>Released\<close>, the semaphore is as it was.\<close>

definition keeps_permits :: "bot_state \<Rightarrow> bot_state \<Rightarrow> bool" where
  "keeps_permits st st' =
     (\<exists>evs. trace st' = trace st @ evs \<and> Acquired \<notin> set evs \<and> Released \<notin> set evs
        \<and> semaphore st' = semaphore st)"


text \<open>The numbers that are not one of the special values.\<close>

fun finite_number :: "jsnum \<Rightarrow> bool" where
  "finite_number (Num a) = True"
| "finite_number x = False"

section \<open>The entry gate in the words of the specification\<close>

text \<open>The decision rule of section 4.3: \<open>0 < RSI < 30\<close> and \<open>macd.macd > macd.signal\<close>, both
  non-null. It is compared with \<open>buyCondition\<close>, the test of line 247.\<close>

definition spec_buy_condition :: "jsnum \<Rightarrow> macd_result \<Rightarrow> bool" where
  "spec_buy_condition currentRSI m =
     (js_gt currentRSI (Num 0) \<and> js_lt currentRSI (Num 30) \<and> macd m \<noteq> Null \<and> signal m \<noteq> Null
      \<and> js_gt (to_number (macd m)) (to_number (signal m)))"


section \<open>The drawdown abort in the words of the specification\<close>

text \<open>The condition of section 4.4: a threshold is configured and the current amount is
  below \<open>initialQuoteAmount * (1 - threshold / 100)\<close>, as an exact product. It is compared
  with the test of lines 670 to 677, \<open>amountOut < stopSellingAmount cfg\<close>.\<close>

definition spec_abort_condition :: "BotConfig \<Rightarrow> int \<Rightarrow> bool" where
  "spec_abort_condition cfg amountOut =
     (0 < skipSellingIfLostMoreThan cfg
      \<and> (of_int amountOut :: rat)
          < of_int (quoteAmount cfg) * (1 - of_int (skipSellingIfLostMoreThan cfg) / 100))"

declare buy_signal_loop.simps [simp del]
declare filter_loop.simps [simp del]
declare sell_loop.simps [simp del]
declare floor_history.simps [simp del]
declare buy_retry.simps [simp del]
declare sell_retry.simps [simp del]

section \<open>Properties of the indicators\<close>

lemma js_add_NaN_right: "js_add x NaN = NaN"
  by (cases x) simp_all

lemma length_fold_macd_step:
  "length (fst (fold (macd_step data) ns acc)) = length (fst acc) + length ns"
  by (induction ns arbitrary: acc) (auto simp: macd_step_def Let_def split: prod.splits)

lemma length_macd_line: "length (macd_line data) = length data - 26"
  by (simp add: macd_line_def length_fold_macd_step)

lemma length_fold_signal_step:
  "length (fst (fold (signal_step line) ns acc)) = length (fst acc) + length ns"
  by (induction ns arbitrary: acc) (auto simp: signal_step_def Let_def split: prod.splits)

lemma length_signal_line: "length (signal_line line) = Suc (length line - 9)"
  by (simp add: signal_line_def length_fold_signal_step)

lemma calculateMACDv2_short:
  "length data < 34 \<Longrightarrow> calculateMACDv2 data = \<lparr>macd = Null, signal = Null\<rparr>"
  by (simp add: calculateMACDv2_def)

lemma signal_seed_short: "length line = 8 \<Longrightarrow> signal_seed line = NaN"
proof -
  assume len: "length line = 8"
  have split: "[0..<9] = [0..<8] @ [8]"
    by (simp add: upt_rec)
  have "js_index line 8 = Undefined"
    using len by (simp add: js_index_def)
  then show ?thesis
    unfolding signal_seed_def split fold_append
    by (simp add: js_add_NaN_right)
qed

lemma calculateRSIv2_short: "length prices < 15 \<Longrightarrow> calculateRSIv2 prices = Num 0"
proof -
  assume "length prices < 15"
  then have no_iteration: "[14..<length prices] = []"
    by simp
  show ?thesis
    unfolding calculateRSIv2_def Let_def no_iteration
    by (simp split: prod.splits)
qed

text \<open>C10. A price list of fewer than 15 samples never enters the smoothing loop of
  \<^verbatim>\<open>calculateRSIv2\<close>, which returns the initial \<open>cRSI = 0\<close>; on such a list
  \<^verbatim>\<open>calculateMACDv2\<close> returns the null pair, so the operands
  \<^verbatim>\<open>currentRSI == 0\<close> and \<^verbatim>\<open>!macd.macd\<close> of the early abort of
  \<^verbatim>\<open>waitForBuySignal\<close> both hold, and the abort fires as soon as \<open>timesChecked\<close> has
  reached \<open>maxSignalWaitTries\<close>.\<close>

theorem calculateRSIv2_short_is_zero:
  assumes "length prices < 15"
  shows "calculateRSIv2 prices = Num 0
    \<and> js_eq (calculateRSIv2 prices) (Num 0)
    \<and> \<not> truthy (macd (calculateMACDv2 prices))
    \<and> earlyAbort n (calculateRSIv2 prices) (calculateMACDv2 prices) = (60 \<le> n)"
  using assms
  by (simp add: calculateRSIv2_short calculateMACDv2_short js_eq_def earlyAbort_def
      maxSignalWaitTries_def)

theorem calculateRSIv2_short_is_zero_witness:
  "length [Num 5, Num 4, Num 6] < 15
    \<and> calculateRSIv2 [Num 5, Num 4, Num 6] = Num 0
    \<and> js_eq (calculateRSIv2 [Num 5, Num 4, Num 6]) (Num 0)
    \<and> \<not> truthy (macd (calculateMACDv2 [Num 5, Num 4, Num 6]))
    \<and> earlyAbort 60 (calculateRSIv2 [Num 5, Num 4, Num 6]) (calculateMACDv2 [Num 5, Num 4, Num 6])"
  using calculateRSIv2_short_is_zero [of "[Num 5, Num 4, Num 6]" 60] by (auto simp: js_eq_def)

lemma signal_seed_in_bounds:
  "35 \<le> length data \<Longrightarrow> i < 9 \<Longrightarrow> js_index (macd_line data) i \<noteq> Undefined"
  by (simp add: js_index_def length_macd_line)

text \<open>From 35 samples on every read of \<^verbatim>\<open>calculateMACDv2\<close> is in range, and on finite
  prices both values returned are finite numbers.\<close>

lemma finite_number_ops:
  assumes "finite_number a" and "finite_number b"
  shows "finite_number (js_add a b)" and "finite_number (js_sub a b)"
    and "finite_number (js_mul a b)"
    and "b \<noteq> Num 0 \<Longrightarrow> finite_number (js_div a b)"
  using assms by (cases a; cases b; simp add: js_sub_def)+

lemma finite_number_index:
  "list_all finite_number xs \<Longrightarrow> i < length xs \<Longrightarrow> finite_number (to_number (js_index xs i))"
  by (simp add: js_index_def list_all_length)

lemma finite_number_ema_step:
  "finite_number k \<Longrightarrow> finite_number x \<Longrightarrow> finite_number e \<Longrightarrow> finite_number (ema_step k x e)"
  by (simp add: ema_step_def finite_number_ops)

lemma finite_number_fold_add:
  "list_all finite_number xs \<Longrightarrow> finite_number acc
    \<Longrightarrow> finite_number (fold (\<lambda>val acc. js_add acc val) xs acc)"
  by (induction xs arbitrary: acc) (simp_all add: finite_number_ops)

lemma finite_number_sma:
  assumes "list_all finite_number data" and "0 < n"
  shows "finite_number (sma data n)"
proof -
  have "list_all finite_number (take n data)"
    using assms(1) by (auto simp: list_all_iff dest: in_set_takeD)
  then have "finite_number (fold (\<lambda>val acc. js_add acc val) (take n data) (Num 0))"
    by (rule finite_number_fold_add) simp
  with assms(2) show ?thesis
    by (simp add: sma_def finite_number_ops)
qed

lemma finite_fold_macd_step:
  assumes "list_all finite_number data" and "\<forall>i \<in> set ns. i < length data"
    and "list_all finite_number (fst acc)" and "finite_number (fst (snd acc))"
    and "finite_number (snd (snd acc))"
  shows "list_all finite_number (fst (fold (macd_step data) ns acc))"
  using assms(2-)
proof (induction ns arbitrary: acc)
  case Nil
  then show ?case by simp
next
  case (Cons i ns)
  obtain line s l where acc: "acc = (line, s, l)"
    by (cases acc) auto
  let ?x = "to_number (js_index data i)"
  have x: "finite_number ?x"
    using assms(1) Cons.prems(1) by (simp add: finite_number_index)
  let ?s = "ema_step (Num (2 / 13)) ?x s" and ?l = "ema_step (Num (2 / 27)) ?x l"
  have emas: "finite_number ?s" "finite_number ?l"
    using x Cons.prems(3,4) acc by (simp_all add: finite_number_ema_step)
  have step: "macd_step data i acc = (line @ [js_sub ?s ?l], ?s, ?l)"
    by (simp add: macd_step_def acc Let_def)
  have "list_all finite_number (fst (fold (macd_step data) ns (macd_step data i acc)))"
    unfolding step using Cons.prems(1,2) emas acc
    by (intro Cons.IH) (simp_all add: finite_number_ops)
  then show ?case
    by simp
qed

lemma finite_macd_line:
  assumes "list_all finite_number data"
  shows "list_all finite_number (macd_line data)"
  unfolding macd_line_def using assms
  by (intro finite_fold_macd_step) (simp_all add: finite_number_sma)

lemma finite_signal_seed:
  assumes "list_all finite_number line" and "9 \<le> length line"
  shows "finite_number (signal_seed line)"
proof -
  have "finite_number (fold (\<lambda>i sum. js_add sum (to_number (js_index line i))) ns acc)"
    if "\<forall>i \<in> set ns. i < length line" and "finite_number acc" for ns acc
    using that
    by (induction ns arbitrary: acc) (simp_all add: finite_number_ops finite_number_index assms(1))
  from this [of "[0..<9]" "Num 0"] assms(2) show ?thesis
    by (simp add: signal_seed_def finite_number_ops)
qed

lemma finite_fold_signal_step:
  assumes "list_all finite_number line" and "\<forall>i \<in> set ns. i < length line"
    and "list_all finite_number (fst acc)" and "finite_number (snd acc)"
  shows "list_all finite_number (fst (fold (signal_step line) ns acc))"
  using assms(2-)
proof (induction ns arbitrary: acc)
  case Nil
  then show ?case by simp
next
  case (Cons i ns)
  obtain sig e where acc: "acc = (sig, e)"
    by (cases acc) auto
  let ?e = "ema_step (Num (2 / 10)) (to_number (js_index line i)) e"
  have e: "finite_number ?e"
    using assms(1) Cons.prems(1,3) acc by (simp add: finite_number_ema_step finite_number_index)
  have step: "signal_step line i acc = (sig @ [?e], ?e)"
    by (simp add: signal_step_def acc Let_def)
  have "list_all finite_number (fst (fold (signal_step line) ns (signal_step line i acc)))"
    unfolding step using Cons.prems(1,2) e acc by (intro Cons.IH) simp_all
  then show ?case
    by simp
qed

lemma calculateMACDv2_from_35:
  assumes "35 \<le> length data" and "list_all finite_number data"
  shows "\<exists>a b. calculateMACDv2 data = \<lparr>macd = Number (Num a), signal = Number (Num b)\<rparr>"
proof -
  let ?line = "macd_line data" and ?sig = "signal_line (macd_line data)"
  have line: "list_all finite_number ?line" "9 \<le> length ?line"
    using assms by (simp_all add: finite_macd_line length_macd_line)
  then have seed: "finite_number (signal_seed ?line)"
    by (rule finite_signal_seed)
  have sig: "list_all finite_number ?sig"
    unfolding signal_line_def using line(1) seed
    by (intro finite_fold_signal_step) simp_all
  have "finite_number (?line ! (length ?line - 1))" "finite_number (?sig ! (length ?sig - 1))"
    using line sig by (simp_all add: list_all_length length_signal_line)
  then obtain a b where "?line ! (length ?line - 1) = Num a" "?sig ! (length ?sig - 1) = Num b"
    by (metis finite_number.elims(2))
  with assms(1) line(2) show ?thesis
    by (simp add: calculateMACDv2_def Let_def js_index_def length_signal_line)
qed

lemma calculateMACDv2_at_34:
  assumes "length data = 34"
  shows "calculateMACDv2 data = \<lparr>macd = Number (macd_line data ! 7), signal = Number NaN\<rparr>"
proof -
  from assms have len: "length (macd_line data) = 8"
    by (simp add: length_macd_line)
  then have seed: "signal_seed (macd_line data) = NaN"
    by (rule signal_seed_short)
  have sig: "signal_line (macd_line data) = [NaN]"
    by (simp add: signal_line_def len seed)
  from assms show ?thesis
    by (simp add: calculateMACDv2_def Let_def len sig js_index_def)
qed

text \<open>C8. The guard of \<^verbatim>\<open>calculateMACDv2\<close> lets a list of exactly
  \<open>longPeriod + signalPeriod - 1 = 34\<close> samples through, the MACD line starts at index
  \<open>longPeriod = 26\<close> and has 8 entries then, and the seed of the signal line reads
  \<^verbatim>\<open>macdLine[0]\<close> to \<^verbatim>\<open>macdLine[8]\<close>: the last read is out of range, the sum becomes
  NaN, and the signal returned is NaN for every such list (the MACD value is the number
  \<^verbatim>\<open>macdLine[7]\<close>).\<close>

theorem calculateMACDv2_length_34_signal_NaN:
  assumes "length data = 34"
  shows "length (macd_line data) = 8
    \<and> js_index (macd_line data) 8 = Undefined
    \<and> macd (calculateMACDv2 data) = Number (macd_line data ! 7)
    \<and> signal (calculateMACDv2 data) = Number NaN"
  using assms by (simp add: calculateMACDv2_at_34 length_macd_line js_index_def)

theorem calculateMACDv2_length_34_signal_NaN_witness:
  "length (map (\<lambda>n. Num (of_nat n)) [1..<35]) = 34
    \<and> js_index (macd_line (map (\<lambda>n. Num (of_nat n)) [1..<35])) 8 = Undefined
    \<and> signal (calculateMACDv2 (map (\<lambda>n. Num (of_nat n)) [1..<35])) = Number NaN"
  using calculateMACDv2_length_34_signal_NaN [of "map (\<lambda>n. Num (of_nat n)) [1..<35]"]
  by simp

section \<open>Properties of the entry gate\<close>

text \<open>Where the test of the code says yes the rule of the specification says yes, and
  the two agree unless the MACD value or the signal value is exactly 0, which the test
  \<^verbatim>\<open>macd.macd && macd.signal\<close> takes for a missing value.\<close>

lemma buyCondition_implies_spec: "buyCondition r m \<Longrightarrow> spec_buy_condition r m"
  by (auto simp: buyCondition_def spec_buy_condition_def)

lemma spec_buy_condition_nonzero:
  assumes "macd m \<noteq> Number (Num 0)" and "signal m \<noteq> Number (Num 0)"
  shows "spec_buy_condition r m = buyCondition r m"
proof -
  have "truthy v" if "v \<noteq> Number (Num 0)" and "v \<noteq> Null" and "to_number v \<noteq> NaN" for v
    using that by (cases v rule: truthy.cases) auto
  moreover have "to_number (macd m) \<noteq> NaN \<and> to_number (signal m) \<noteq> NaN"
    if "js_gt (to_number (macd m)) (to_number (signal m))"
    using that by (cases "to_number (macd m)"; cases "to_number (signal m)") (auto simp: js_gt_def)
  ultimately show ?thesis
    using assms by (auto simp: buyCondition_def spec_buy_condition_def)
qed

text \<open>A tick that returns true satisfies the rule of the specification; a tick that
  satisfies it with a MACD value and a signal value other than 0 returns true.\<close>

lemma buy_signal_tick_true_sound:
  assumes "buy_signal_tick n prices obs = (TickReturn True, prices')"
  shows "spec_buy_condition (calculateRSIv2 prices') (calculateMACDv2 prices')"
proof (cases obs)
  case PriceFetchFailed
  with assms show ?thesis
    by (simp add: buy_signal_tick_def)
next
  case (Price p)
  with assms have "prices' = push_price prices p"
    and "buyCondition (calculateRSIv2 (push_price prices p)) (calculateMACDv2 (push_price prices p))"
    by (auto simp: buy_signal_tick_def Let_def split: if_splits)
  then show ?thesis
    by (simp add: buyCondition_implies_spec)
qed

lemma buy_signal_tick_true_complete:
  assumes "spec_buy_condition (calculateRSIv2 (push_price prices p))
      (calculateMACDv2 (push_price prices p))"
    and "macd (calculateMACDv2 (push_price prices p)) \<noteq> Number (Num 0)"
    and "signal (calculateMACDv2 (push_price prices p)) \<noteq> Number (Num 0)"
  shows "buy_signal_tick n prices (Price p) = (TickReturn True, push_price prices p)"
proof -
  from assms have buy: "buyCondition (calculateRSIv2 (push_price prices p))
      (calculateMACDv2 (push_price prices p))"
    by (simp add: spec_buy_condition_nonzero)
  then have "truthy (macd (calculateMACDv2 (push_price prices p)))"
    by (simp add: buyCondition_def)
  then have "\<not> earlyAbort n (calculateRSIv2 (push_price prices p))
      (calculateMACDv2 (push_price prices p))"
    by (simp add: earlyAbort_def)
  with buy show ?thesis
    by (simp add: buy_signal_tick_def Let_def)
qed

lemma buy_signal_tick_few_samples:
  assumes "length (push_price prices p) \<le> 34" and "n < 60"
  shows "buy_signal_tick n prices (Price p) = (TickContinue [1000], push_price prices p)"
proof -
  have "\<not> truthy (macd (calculateMACDv2 (push_price prices p)))
      \<or> \<not> truthy (signal (calculateMACDv2 (push_price prices p)))"
  proof (cases "length (push_price prices p) = 34")
    case True
    then show ?thesis
      by (simp add: calculateMACDv2_at_34)
  next
    case False
    with assms(1) have "length (push_price prices p) < 34"
      by simp
    then show ?thesis
      by (simp add: calculateMACDv2_short)
  qed
  then have "\<not> buyCondition (calculateRSIv2 (push_price prices p))
      (calculateMACDv2 (push_price prices p))"
    by (auto simp: buyCondition_def)
  moreover from assms(2) have "\<not> earlyAbort n (calculateRSIv2 (push_price prices p))
      (calculateMACDv2 (push_price prices p))"
    by (simp add: earlyAbort_def maxSignalWaitTries_def)
  ultimately show ?thesis
    by (simp add: buy_signal_tick_def Let_def)
qed

lemma buy_signal_loop_no_more_prices:
  assumes "\<And>k. n \<le> k \<Longrightarrow> env k = PriceFetchFailed" and "n < buy_timesToCheck"
  shows "buy_signal_loop env n prices zs
    = \<lparr>buySignal = False, timesChecked = buy_timesToCheck, slept = zs\<rparr>"
  using assms
proof (induction "buy_timesToCheck - n" arbitrary: n)
  case 0
  then show ?case by simp
next
  case (Suc d)
  have tick: "buy_signal_tick n prices (env n) = (TickContinue [], prices)"
    using Suc.prems(1) [of n] by (simp add: buy_signal_tick_def)
  show ?case
  proof (cases "Suc n < buy_timesToCheck")
    case True
    have "buy_signal_loop env (Suc n) prices zs
        = \<lparr>buySignal = False, timesChecked = buy_timesToCheck, slept = zs\<rparr>"
      using Suc.hyps(2) Suc.prems(1) True by (intro Suc.hyps(1)) simp_all
    with tick True show ?thesis
      by (subst buy_signal_loop.simps) simp
  next
    case False
    with Suc.prems(2) have "Suc n = buy_timesToCheck"
      by simp
    with tick show ?thesis
      by (subst buy_signal_loop.simps) simp
  qed
qed


lemma length_zero_macd_prices: "length zero_macd_prices = 35"
  by (simp add: zero_macd_prices_def)

lemma zero_macd_MACD:
  "calculateMACDv2 (map Num zero_macd_prices)
    = \<lparr>macd = Number (Num 0),
       signal = Number (Num (- (542648225522102957224 / 2073478044828077395209)))\<rparr>"
proof -
  have line: "macd_line (map Num zero_macd_prices) =
      [Num (- (5884 / 351)), Num (- (1289230 / 123201)), Num (- (220149448 / 43243551)),
       Num (- (5225114338 / 15178486401)), Num (20549890065332 / 5327648726751),
       Num (13137211617762926 / 1870004703089601),
       Num (5978326960946333360 / 656371650784449951),
       Num (2376936393416194523258 / 230386449425341932801), Num 0]"
    by (simp add: macd_line_def upt_rec sma_def zero_macd_prices_def macd_step_def
        ema_step_def js_sub_def js_index_def Let_def)
  have seed: "signal_seed (macd_line (map Num zero_macd_prices))
      = Num (- (542648225522102957224 / 2073478044828077395209))"
    unfolding line by (simp add: signal_seed_def upt_rec js_index_def)
  have sig: "signal_line (macd_line (map Num zero_macd_prices))
      = [Num (- (542648225522102957224 / 2073478044828077395209))]"
    unfolding signal_line_def seed unfolding line by simp
  show ?thesis
    unfolding calculateMACDv2_def Let_def sig unfolding line
    by (simp add: js_index_def zero_macd_prices_def)
qed

lemma zero_macd_RSI:
  "calculateRSIv2 (map Num zero_macd_prices)
    = Num (38876229064161550410384519515834919190166116050
            / 1821555572221289794999263798755294660414710321)"
proof -
  have delta: "rsi_delta (map Num zero_macd_prices) =
      map Num [2, 5, 1, - 1, 7, 4, 3, 3, 1, 7, 4, 3, 3, 4, 1, 3, 6, 5, 6, - 1, - 1, 6, 6, 3, 2, 2,
        6, 4, 6, 6, - 1, - 4, - 4,
        211693987859991605050378 / 1612705145977393529607 - 271]"
    by (simp add: rsi_delta_def upt_rec zero_macd_prices_def js_sub_def js_index_def)
  show ?thesis
    unfolding calculateRSIv2_def delta
    by (simp add: upt_rec rsi_sums_def rsi_step_def js_gt_def js_sub_def js_index_def Let_def
        zero_macd_prices_def)
qed


lemma replicate_snoc: "replicate n x @ [x] = replicate (Suc n) x"
  by (simp add: replicate_append_same)

lemma push_price_next:
  assumes "distinct_adj ps" and "n < length ps"
  shows "push_price (map Num (take n ps)) (Num (ps ! n)) = map Num (take (Suc n) ps)"
proof (cases n)
  case 0
  with assms(2) show ?thesis
    by (simp add: push_price_def take_Suc_conv_app_nth)
next
  case (Suc k)
  with assms have differ: "ps ! k \<noteq> ps ! Suc k"
    by (intro distinct_adj_nth) simp_all
  have prev: "to_number (js_index (map Num (take (Suc k) ps)) k) = Num (ps ! k)"
    using assms(2) Suc by (simp add: js_index_def)
  have "push_price (map Num (take (Suc k) ps)) (Num (ps ! Suc k))
      = map Num (take (Suc k) ps) @ [Num (ps ! Suc k)]"
    using differ assms(2) Suc by (simp add: push_price_def prev js_strict_neq_def js_eq_def)
  also have "\<dots> = map Num (take (Suc (Suc k)) ps)"
    using assms(2) Suc by (simp add: take_Suc_conv_app_nth [of "Suc k"])
  finally show ?thesis
    using Suc by simp
qed

lemma buy_signal_loop_prefix:
  assumes "distinct_adj ps" and "m \<le> length ps" and "m \<le> 34" and "n \<le> m"
  shows "buy_signal_loop (price_feed ps) n (map Num (take n ps)) zs
    = buy_signal_loop (price_feed ps) m (map Num (take m ps)) (zs @ replicate (m - n) 1000)"
  using assms(4)
proof (induction "m - n" arbitrary: n zs)
  case 0
  then show ?case by simp
next
  case (Suc d)
  then have n: "n < m" "n < length ps" "n < 60" "Suc n < buy_timesToCheck"
    using assms(2,3) by (simp_all add: buy_timesToCheck_def)
  have pushed: "push_price (map Num (take n ps)) (Num (ps ! n)) = map Num (take (Suc n) ps)"
    using assms(1) n(2) by (rule push_price_next)
  have "length (push_price (map Num (take n ps)) (Num (ps ! n))) \<le> 34"
    unfolding pushed using n(1,2) assms(3) by simp
  then have tick: "buy_signal_tick n (map Num (take n ps)) (price_feed ps n)
      = (TickContinue [1000], map Num (take (Suc n) ps))"
    using n(2,3) pushed by (simp add: price_feed_def buy_signal_tick_few_samples)
  have "buy_signal_loop (price_feed ps) (Suc n) (map Num (take (Suc n) ps)) (zs @ [1000])
      = buy_signal_loop (price_feed ps) m (map Num (take m ps))
          ((zs @ [1000]) @ replicate (m - Suc n) 1000)"
    using Suc.hyps(2) n(1) by (intro Suc.hyps(1)) simp_all
  moreover have "(zs @ [1000]) @ replicate (m - Suc n) 1000 = zs @ replicate (m - n) (1000 :: nat)"
    using n(1) by (simp add: Suc_diff_Suc replicate_app_Cons_same flip: replicate_Suc)
  ultimately show ?case
    using tick n(4) by (subst buy_signal_loop.simps) simp
qed

lemma distinct_adj_zero_macd_prices: "distinct_adj zero_macd_prices"
  by (simp add: zero_macd_prices_def)

text \<open>C7. The 35 prices of \<open>zero_macd_prices\<close>, one per tick, then fetches that fail: at
  tick 34 the RSI is between 0 and 30 and the MACD value 0 is above the negative signal
  value, both non-null, so the rule of the specification says buy; the test of line 247
  reads the MACD value 0 as false, and \<^verbatim>\<open>waitForBuySignal\<close> sleeps, polls its 300 ticks
  and returns false.\<close>

theorem zero_macd_is_not_bought:
  "spec_buy_condition (calculateRSIv2 (map Num zero_macd_prices))
       (calculateMACDv2 (map Num zero_macd_prices))
    \<and> macd (calculateMACDv2 (map Num zero_macd_prices)) = Number (Num 0)
    \<and> \<not> buyCondition (calculateRSIv2 (map Num zero_macd_prices))
           (calculateMACDv2 (map Num zero_macd_prices))
    \<and> waitForBuySignal demo_config (price_feed zero_macd_prices)
       = \<lparr>buySignal = False, timesChecked = 300, slept = replicate 35 1000\<rparr>"
proof -
  let ?ps = "zero_macd_prices"
  have spec: "spec_buy_condition (calculateRSIv2 (map Num ?ps)) (calculateMACDv2 (map Num ?ps))"
    unfolding zero_macd_MACD zero_macd_RSI by (simp add: spec_buy_condition_def js_gt_def)
  have code: "\<not> buyCondition (calculateRSIv2 (map Num ?ps)) (calculateMACDv2 (map Num ?ps))"
    unfolding zero_macd_MACD by (simp add: buyCondition_def)
  have "push_price (map Num (take 34 ?ps)) (Num (?ps ! 34)) = map Num (take (Suc 34) ?ps)"
    by (rule push_price_next) (simp_all add: distinct_adj_zero_macd_prices length_zero_macd_prices)
  then have pushed: "push_price (map Num (take 34 ?ps)) (Num (?ps ! 34)) = map Num ?ps"
    by (simp add: length_zero_macd_prices)
  have tick: "buy_signal_tick 34 (map Num (take 34 ?ps)) (price_feed ?ps 34)
      = (TickContinue [1000], map Num ?ps)"
    using code
    by (simp add: buy_signal_tick_def price_feed_def length_zero_macd_prices pushed Let_def
        earlyAbort_def maxSignalWaitTries_def)
  have tail: "buy_signal_loop (price_feed ?ps) 35 (map Num ?ps) (replicate 35 1000)
      = \<lparr>buySignal = False, timesChecked = buy_timesToCheck, slept = replicate 35 1000\<rparr>"
    by (rule buy_signal_loop_no_more_prices)
      (simp_all add: price_feed_def length_zero_macd_prices buy_timesToCheck_def)
  have "buy_signal_loop (price_feed ?ps) 0 (map Num (take 0 ?ps)) []
      = buy_signal_loop (price_feed ?ps) 34 (map Num (take 34 ?ps)) ([] @ replicate (34 - 0) 1000)"
    by (rule buy_signal_loop_prefix)
      (simp_all add: distinct_adj_zero_macd_prices length_zero_macd_prices)
  also have "\<dots> = buy_signal_loop (price_feed ?ps) 35 (map Num ?ps) (replicate 34 1000 @ [1000])"
    using tick by (subst buy_signal_loop.simps) (simp add: buy_timesToCheck_def)
  also have "replicate 34 1000 @ [1000] = replicate 35 (1000 :: nat)"
    using replicate_snoc [of 34 "1000 :: nat"] by simp
  finally have "waitForBuySignal demo_config (price_feed ?ps)
      = \<lparr>buySignal = False, timesChecked = 300, slept = replicate 35 1000\<rparr>"
    using tail by (simp add: waitForBuySignal_def buy_timesToCheck_def)
  with spec code show ?thesis
    by (simp add: zero_macd_MACD)
qed

text \<open>On the prices of \<open>oversold_prices\<close> the gate says yes at tick 34, the first tick
  with enough samples for a signal value.\<close>

lemma length_oversold_prices: "length oversold_prices = 35"
  by (simp add: oversold_prices_def)

lemma distinct_adj_oversold_prices: "distinct_adj oversold_prices"
  by (simp add: oversold_prices_def)

lemma oversold_MACD:
  "calculateMACDv2 (map Num oversold_prices)
    = \<lparr>macd = Number (Num (- (38940860723021724007868 / 6220434134484232185627))),
       signal = Number (Num (- (352639524815853023361992 / 55983907210358089670643)))\<rparr>"
proof -
  have line: "macd_line (map Num oversold_prices) =
      [Num (- (2612 / 351)), Num (- (64040 / 9477)), Num (- (20704136 / 3326427)),
       Num (- (6975931460 / 1167575877)), Num (- (2438639014388 / 409819132827)),
       Num (- (854956618491992 / 143846515622277)),
       Num (- (304448790713064836 / 50490126983419227)),
       Num (- (108256183779122538548 / 17722034571180148677)),
       Num (- (38940860723021724007868 / 6220434134484232185627))]"
    by (simp add: macd_line_def upt_rec sma_def oversold_prices_def macd_step_def
        ema_step_def js_sub_def js_index_def Let_def)
  have seed: "signal_seed (macd_line (map Num oversold_prices))
      = Num (- (352639524815853023361992 / 55983907210358089670643))"
    unfolding line by (simp add: signal_seed_def upt_rec js_index_def)
  have sig: "signal_line (macd_line (map Num oversold_prices))
      = [Num (- (352639524815853023361992 / 55983907210358089670643))]"
    unfolding signal_line_def seed unfolding line by simp
  show ?thesis
    unfolding calculateMACDv2_def Let_def sig unfolding line
    by (simp add: js_index_def oversold_prices_def)
qed

lemma oversold_RSI:
  "calculateRSIv2 (map Num oversold_prices)
    = Num (7873204890306949967011875 / 299734626633587669102953)"
proof -
  have delta: "rsi_delta (map Num oversold_prices) =
      map Num [1, - 1, 1, 1, - 1, - 1, 1, 1, - 1, - 1, - 1, 23, - 3, - 1, 1, 1, - 3, 1, - 1, 1,
        - 1, - 2, - 3, - 3, - 2, - 2, - 2, - 1, - 3, - 3, - 1, - 2, - 1, - 2]"
    by (simp add: rsi_delta_def upt_rec oversold_prices_def js_sub_def js_index_def)
  show ?thesis
    unfolding calculateRSIv2_def delta
    by (simp add: upt_rec rsi_sums_def rsi_step_def js_gt_def js_sub_def js_index_def Let_def
        oversold_prices_def)
qed

lemma oversold_run:
  "waitForBuySignal cfg (price_feed oversold_prices)
    = \<lparr>buySignal = True, timesChecked = 35, slept = replicate 34 1000\<rparr>"
proof -
  let ?ps = "oversold_prices"
  have buy: "buyCondition (calculateRSIv2 (map Num ?ps)) (calculateMACDv2 (map Num ?ps))"
    unfolding oversold_MACD oversold_RSI by (simp add: buyCondition_def js_gt_def)
  have "push_price (map Num (take 34 ?ps)) (Num (?ps ! 34)) = map Num (take (Suc 34) ?ps)"
    by (rule push_price_next) (simp_all add: distinct_adj_oversold_prices length_oversold_prices)
  then have pushed: "push_price (map Num (take 34 ?ps)) (Num (?ps ! 34)) = map Num ?ps"
    by (simp add: length_oversold_prices)
  have tick: "buy_signal_tick 34 (map Num (take 34 ?ps)) (price_feed ?ps 34)
      = (TickReturn True, map Num ?ps)"
    using buy
    by (simp add: buy_signal_tick_def price_feed_def length_oversold_prices pushed Let_def
        earlyAbort_def maxSignalWaitTries_def)
  have "buy_signal_loop (price_feed ?ps) 0 (map Num (take 0 ?ps)) []
      = buy_signal_loop (price_feed ?ps) 34 (map Num (take 34 ?ps)) ([] @ replicate (34 - 0) 1000)"
    by (rule buy_signal_loop_prefix)
      (simp_all add: distinct_adj_oversold_prices length_oversold_prices)
  also have "\<dots> = \<lparr>buySignal = True, timesChecked = 35, slept = replicate 34 1000\<rparr>"
    using tick by (subst buy_signal_loop.simps) simp
  finally show ?thesis
    by (simp add: waitForBuySignal_def)
qed







section \<open>Properties of the exit monitor\<close>

lemma sell_tick_cases:
  assumes "sell_tick cfg mint f m obs = (out, f', m')" and "m mint = Some f"
  shows "f \<le> f'"
    and "out = SellContinue \<Longrightarrow> m' mint = Some f'"
    and "out \<noteq> SellContinue \<Longrightarrow> m' mint = None"
    and "f' \<noteq> f \<Longrightarrow> trailingStopLoss cfg \<and> (\<exists>a. obs = Quote a \<and> f' = trailingStopLossOf cfg a \<and> f < f')"
  using assms
  by (auto simp: sell_tick_def Let_def split: quote_obs.splits if_splits)

lemma last_floor_history:
  "snd (sell_loop cfg mint env t n f m) mint = last (floor_history cfg mint env t n f m)"
proof (induction cfg mint env t n f m rule: sell_loop.induct)
  case (1 cfg mint env t n f m)
  obtain out f' m' where tick: "sell_tick cfg mint f m (env n) = (out, f', m')"
    by (cases "sell_tick cfg mint f m (env n)") auto
  show ?case
  proof (cases out)
    case SellContinue
    show ?thesis
    proof (cases "of_nat (Suc n) < t")
      case True
      have nonempty: "floor_history cfg mint env t (Suc n) f' m' \<noteq> []"
        by (subst floor_history.simps) (auto split: prod.splits sell_tick_outcome.splits)
      from "1.IH" [OF tick [symmetric] _ _ True] tick SellContinue True nonempty
      show ?thesis
        by (subst sell_loop.simps, subst floor_history.simps) simp
    next
      case False
      with tick SellContinue show ?thesis
        by (subst sell_loop.simps, subst floor_history.simps) simp
    qed
  next
    case SellBreak
    with tick show ?thesis
      by (subst sell_loop.simps, subst floor_history.simps) simp
  next
    case SellReturnFalse
    with tick show ?thesis
      by (subst sell_loop.simps, subst floor_history.simps) simp
  qed
qed


lemma floor_history_sorted:
  "m mint = Some f \<Longrightarrow>
   \<exists>vs rest. floor_history cfg mint env t n f m = map Some vs @ rest
     \<and> (rest = [] \<or> rest = [None]) \<and> sorted (f # vs)"
proof (induction cfg mint env t n f m rule: floor_history.induct)
  case (1 cfg mint env t n f m)
  obtain out f' m' where tick: "sell_tick cfg mint f m (env n) = (out, f', m')"
    by (cases "sell_tick cfg mint f m (env n)") auto
  note facts = sell_tick_cases [OF tick "1.prems"]
  show ?case
  proof (cases "out = SellContinue")
    case False
    with tick facts(3) have "floor_history cfg mint env t n f m = map Some [] @ [None]"
      by (subst floor_history.simps) (cases out; simp)
    then show ?thesis
      by (metis sorted1)
  next
    case True
    then have entry: "m' mint = Some f'"
      by (rule facts(2))
    show ?thesis
    proof (cases "of_nat (Suc n) < t")
      case False
      with tick True entry have "floor_history cfg mint env t n f m = map Some [f'] @ []"
        by (subst floor_history.simps) simp
      moreover have "sorted (f # [f'])"
        using facts(1) by simp
      ultimately show ?thesis
        by blast
    next
      case more: True
      from "1.IH" [OF tick [symmetric] True refl more entry]
      obtain vs rest where
        rest: "floor_history cfg mint env t (Suc n) f' m' = map Some vs @ rest"
          "rest = [] \<or> rest = [None]" "sorted (f' # vs)"
        by auto
      from tick True entry more rest(1)
      have "floor_history cfg mint env t n f m = map Some (f' # vs) @ rest"
        by (subst floor_history.simps) simp
      moreover have "sorted (f # f' # vs)"
        using facts(1) rest(3) by auto
      ultimately show ?thesis
        using rest(2) by blast
    qed
  qed
qed

text \<open>The candidate of the trailing stop is \<open>amountOut * (1 - stopLoss / 100)\<close> rounded up to
  a whole raw unit, so it is above a floor exactly when the unrounded product is.\<close>

lemma trailingStopLossOf_exact:
  assumes "0 \<le> amountOut" and "0 \<le> stopLoss cfg"
  shows "(f < trailingStopLossOf cfg amountOut) = (100 * f < amountOut * (100 - stopLoss cfg))"
proof -
  define x where "x = amountOut * stopLoss cfg"
  have "0 \<le> x"
    using assms by (simp add: x_def)
  then have cand: "trailingStopLossOf cfg amountOut = amountOut - x div 100"
    by (auto simp: trailingStopLossOf_def percentOf_def bn_div_def sgn_if x_def)
  have rhs: "amountOut * (100 - stopLoss cfg) = 100 * amountOut - x"
    by (simp add: x_def algebra_simps)
  have "x = 100 * (x div 100) + x mod 100" and "0 \<le> x mod 100" and "x mod 100 < 100"
    by simp_all
  then show ?thesis
    unfolding cand rhs by linarith
qed


text \<open>Before its first tick \<^verbatim>\<open>waitForSellSignal\<close> makes the map hold the local floor.\<close>

lemma initial_floor_stored:
  "(case m mint of None \<Rightarrow> m(mint \<mapsto> initialStopLoss cfg) | Some v \<Rightarrow> m) mint
    = Some (case m mint of None \<Rightarrow> initialStopLoss cfg | Some v \<Rightarrow> v)"
  by (simp split: option.splits)

text \<open>C5. From any tick of the monitoring loop at which the map holds the local floor
  \<open>f\<close> for the mint (as it does at the first tick, \<open>initial_floor_stored\<close>, and after
  every tick that goes on, \<open>sell_tick_cases\<close>), the entries the following ticks leave in
  the map are a non-decreasing run of floors, none below \<open>f\<close>, ended at most by the
  deletion that closes the position. One tick leaves the entry as it was, deletes it, or
  (with \<^verbatim>\<open>trailingStopLoss\<close> set) replaces it by the candidate
  \<open>amountOut - amountOut * stopLoss / 100\<close>, and this only when the candidate is strictly
  greater than the floor.\<close>

theorem stop_loss_floor_non_decreasing:
  assumes "m mint = Some f"
  shows "(\<exists>vs rest. floor_history cfg mint env t n f m = map Some vs @ rest
            \<and> (rest = [] \<or> rest = [None]) \<and> sorted (f # vs))
    \<and> (\<exists>out f' m'. sell_tick cfg mint f m obs = (out, f', m')
          \<and> (m' mint = Some f \<or> m' mint = None
              \<or> trailingStopLoss cfg
                 \<and> (\<exists>a. obs = Quote a \<and> f < trailingStopLossOf cfg a
                        \<and> m' mint = Some (trailingStopLossOf cfg a))))"
proof
  show "\<exists>vs rest. floor_history cfg mint env t n f m = map Some vs @ rest
            \<and> (rest = [] \<or> rest = [None]) \<and> sorted (f # vs)"
    using assms by (rule floor_history_sorted)
next
  obtain out f' m' where tick: "sell_tick cfg mint f m obs = (out, f', m')"
    by (cases "sell_tick cfg mint f m obs") auto
  note facts = sell_tick_cases [OF tick assms]
  have "m' mint = Some f \<or> m' mint = None
      \<or> trailingStopLoss cfg
         \<and> (\<exists>a. obs = Quote a \<and> f < trailingStopLossOf cfg a
                \<and> m' mint = Some (trailingStopLossOf cfg a))"
  proof (cases "out = SellContinue")
    case False
    then show ?thesis using facts(3) by simp
  next
    case True
    then have "m' mint = Some f'" by (rule facts(2))
    then show ?thesis using facts(4) by (cases "f' = f") auto
  qed
  with tick show "\<exists>out f' m'. sell_tick cfg mint f m obs = (out, f', m')
          \<and> (m' mint = Some f \<or> m' mint = None
              \<or> trailingStopLoss cfg
                 \<and> (\<exists>a. obs = Quote a \<and> f < trailingStopLossOf cfg a
                        \<and> m' mint = Some (trailingStopLossOf cfg a)))"
    by blast
qed

lemma demo_thresholds:
  "initialStopLoss demo_config = 900000000"
  "takeProfitAmount demo_config = 1200000000"
  "stopSellingAmount demo_config = 500000000"
  "trailingStopLoss demo_config"
  "skipSellingIfLostMoreThan demo_config = 50"
  "trailingStopLossOf demo_config 1000000000 = 900000000"
  "trailingStopLossOf demo_config 1100000000 = 990000000"
  "trailingStopLossOf demo_config 1050000000 = 945000000"
  by (simp_all add: initialStopLoss_def takeProfitAmount_def stopSellingAmount_def
      trailingStopLossOf_def percentOf_def bn_div_def demo_config_def)


theorem stop_loss_floor_non_decreasing_witness:
  "[''MINT'' \<mapsto> 900000000] ''MINT'' = Some (900000000 :: int)
    \<and> floor_history demo_config ''MINT'' rising_quotes 4 0 900000000 [''MINT'' \<mapsto> 900000000]
        = map Some [900000000, 990000000, 990000000, 990000000] @ []
    \<and> sorted [900000000, 900000000, 990000000, 990000000, 990000000 :: int]
    \<and> sell_tick demo_config ''MINT'' 900000000 [''MINT'' \<mapsto> 900000000] (Quote 1100000000)
        = (SellContinue, 990000000, [''MINT'' \<mapsto> 990000000])
    \<and> 900000000 < trailingStopLossOf demo_config 1100000000"
  using stop_loss_floor_non_decreasing
    [of "[''MINT'' \<mapsto> 900000000]" "''MINT''" 900000000 demo_config rising_quotes 4 0
      "Quote 1100000000"]
  by (simp add: floor_history.simps sell_tick_def demo_thresholds rising_quotes_def Let_def)

text \<open>C4. The three triggers delete the entry (\<open>sell_tick_cases\<close>, third fact), the end
  of the loop does not: with two ticks at a quote of 1.0 token, between the floor 0.9 and
  the take profit 1.2, \<^verbatim>\<open>waitForSellSignal\<close> returns true and the map still holds the
  floor of the mint.\<close>

theorem waitForSellSignal_exhaustion_keeps_entry:
  "fst (waitForSellSignal demo_config ''MINT'' flat_quotes Map.empty) = True
    \<and> snd (waitForSellSignal demo_config ''MINT'' flat_quotes Map.empty) ''MINT'' = Some 900000000"
  by (simp add: waitForSellSignal_def sell_loop.simps sell_tick_def demo_thresholds flat_quotes_def Let_def
      demo_config_def [THEN arg_cong [of _ _ priceCheckDuration]]
      demo_config_def [THEN arg_cong [of _ _ priceCheckInterval]])

lemma stopSellingAmount_bounds:
  assumes "0 \<le> quoteAmount cfg" and "skipSellingIfLostMoreThan cfg \<le> 100"
  shows "100 * stopSellingAmount cfg \<le> quoteAmount cfg * (100 - skipSellingIfLostMoreThan cfg)"
    and "quoteAmount cfg * (100 - skipSellingIfLostMoreThan cfg) < 100 * stopSellingAmount cfg + 100"
proof -
  let ?x = "quoteAmount cfg * (100 - skipSellingIfLostMoreThan cfg)"
  from assms have nonneg: "0 \<le> ?x" by simp
  then have "stopSellingAmount cfg = ?x div 100"
    by (auto simp: stopSellingAmount_def percentOf_def bn_div_def sgn_if)
  then show "100 * stopSellingAmount cfg \<le> ?x" and "?x < 100 * stopSellingAmount cfg + 100"
    by simp_all
qed

lemma sell_loop_abort:
  assumes "0 < skipSellingIfLostMoreThan cfg" and "env n = Quote amountOut"
    and "amountOut < stopSellingAmount cfg"
  shows "fst (sell_loop cfg mint env t n f m) = False"
    and "snd (sell_loop cfg mint env t n f m) mint = None"
  using assms by (subst sell_loop.simps, simp add: sell_tick_def Let_def)+

text \<open>The test of the code fires only where the condition of the specification holds,
  and the two agree when \<open>quoteAmount * (100 - threshold)\<close> is a multiple of 100, so that
  \<^verbatim>\<open>BN.div\<close> cuts nothing.\<close>

lemma abort_implies_spec_abort_condition:
  assumes "0 \<le> quoteAmount cfg" and "0 < skipSellingIfLostMoreThan cfg"
    and "skipSellingIfLostMoreThan cfg \<le> 100" and "amountOut < stopSellingAmount cfg"
  shows "spec_abort_condition cfg amountOut"
proof -
  let ?x = "quoteAmount cfg * (100 - skipSellingIfLostMoreThan cfg)"
  have "100 * amountOut < 100 * stopSellingAmount cfg"
    using assms(4) by simp
  also have "\<dots> \<le> ?x"
    using assms(1,3) by (rule stopSellingAmount_bounds)
  finally have "(of_int (100 * amountOut) :: rat) < of_int ?x"
    by (simp only: of_int_less_iff)
  then show ?thesis
    using assms(2) by (simp add: spec_abort_condition_def field_simps)
qed

lemma spec_abort_condition_whole_unit:
  assumes "0 \<le> quoteAmount cfg" and "skipSellingIfLostMoreThan cfg \<le> 100"
    and "100 dvd quoteAmount cfg * (100 - skipSellingIfLostMoreThan cfg)"
    and "spec_abort_condition cfg amountOut"
  shows "amountOut < stopSellingAmount cfg"
proof -
  let ?x = "quoteAmount cfg * (100 - skipSellingIfLostMoreThan cfg)"
  from assms(1,2) have "0 \<le> ?x" by simp
  then have "stopSellingAmount cfg = ?x div 100"
    by (auto simp: stopSellingAmount_def percentOf_def bn_div_def sgn_if)
  with assms(3) have whole: "100 * stopSellingAmount cfg = ?x"
    by simp
  from assms(4) have "(of_int (100 * amountOut) :: rat) < of_int ?x"
    by (simp add: spec_abort_condition_def field_simps)
  then have "100 * amountOut < ?x"
    by (simp only: of_int_less_iff)
  with whole show ?thesis
    by simp
qed

lemma odd_thresholds:
  "initialStopLoss odd_config = 900000001"
  "takeProfitAmount odd_config = 1200000001"
  "stopSellingAmount odd_config = 500000000"
  "trailingStopLoss odd_config"
  "skipSellingIfLostMoreThan odd_config = 50"
  "quoteAmount odd_config = 1000000001"
  "trailingStopLossOf odd_config 500000000 = 450000000"
  "priceCheckDuration odd_config = 10000"
  "priceCheckInterval odd_config = 5000"
  "autoSellDelay odd_config = 0"
  "maxSellRetries odd_config = 3"
  by (simp_all add: initialStopLoss_def takeProfitAmount_def stopSellingAmount_def
      trailingStopLossOf_def percentOf_def bn_div_def odd_config_def demo_config_def)

text \<open>With monitoring enabled, \<^verbatim>\<open>waitForSellSignal\<close> is its loop from tick 0, and the
  loop from tick 0 is the loop from any tick it reaches.\<close>

lemma waitForSellSignal_enabled:
  assumes "priceCheckDuration cfg \<noteq> 0" and "priceCheckInterval cfg \<noteq> 0"
  shows "waitForSellSignal cfg mint env m =
    sell_loop cfg mint env (of_nat (priceCheckDuration cfg) / of_nat (priceCheckInterval cfg)) 0
      (floor_at_entry cfg mint m) (map_at_entry cfg mint m)"
  using assms by (simp add: waitForSellSignal_def floor_at_entry_def map_at_entry_def Let_def)

lemma sell_loop_after_ticks:
  assumes "sell_ticks cfg mint env k f m = Some (f', m')" and "k = 0 \<or> of_nat k < t"
  shows "sell_loop cfg mint env t 0 f m = sell_loop cfg mint env t k f' m'"
  using assms
proof (induction k arbitrary: f' m')
  case 0
  then show ?case by simp
next
  case (Suc k)
  from Suc.prems(1) obtain fk mk where
    before: "sell_ticks cfg mint env k f m = Some (fk, mk)"
    and tick: "sell_tick cfg mint fk mk (env k) = (SellContinue, f', m')"
    by (auto split: option.splits prod.splits sell_tick_outcome.splits)
  from Suc.prems(2) have reached: "of_nat (Suc k) < t"
    by simp
  then have "k = 0 \<or> of_nat k < t"
    by simp
  with before have "sell_loop cfg mint env t 0 f m = sell_loop cfg mint env t k fk mk"
    by (rule Suc.IH)
  also have "\<dots> = sell_loop cfg mint env t (Suc k) f' m'"
    using tick reached by (subst sell_loop.simps) simp
  finally show ?case .
qed

section \<open>Properties of the buy pipeline\<close>

lemma keeps_permits_refl: "keeps_permits st st"
  by (simp add: keeps_permits_def)

lemma keeps_permits_trans:
  "keeps_permits st st' \<Longrightarrow> keeps_permits st' st'' \<Longrightarrow> keeps_permits st st''"
  unfolding keeps_permits_def
proof (elim exE conjE)
  fix evs evs'
  assume "trace st' = trace st @ evs" "trace st'' = trace st' @ evs'"
    "Acquired \<notin> set evs" "Released \<notin> set evs" "Acquired \<notin> set evs'" "Released \<notin> set evs'"
    "semaphore st' = semaphore st" "semaphore st'' = semaphore st'"
  then have "trace st'' = trace st @ (evs @ evs') \<and> Acquired \<notin> set (evs @ evs')
      \<and> Released \<notin> set (evs @ evs') \<and> semaphore st'' = semaphore st"
    by simp
  then show "\<exists>evs. trace st'' = trace st @ evs \<and> Acquired \<notin> set evs \<and> Released \<notin> set evs
      \<and> semaphore st'' = semaphore st"
    by blast
qed

lemma keeps_permits_log:
  "Acquired \<notin> set evs \<Longrightarrow> Released \<notin> set evs \<Longrightarrow> keeps_permits st (st\<lparr>trace := trace st @ evs\<rparr>)"
  by (auto simp: keeps_permits_def)

lemma buy_retry_keeps_permits: "keeps_permits st (snd (buy_retry cfg env t0 i st))"
proof (induction cfg env t0 i st rule: buy_retry.induct)
  case (1 cfg env t0 i st)
  let ?st' = "st\<lparr>trace := trace st @ [SwapAttempted Buy i]\<rparr>"
  have logged: "keeps_permits st ?st'"
    by (rule keeps_permits_log) simp_all
  show ?case
  proof (cases "i < maxBuyRetries cfg \<and> \<not> clock env (Suc i) - t0 > 10000")
    case False
    then show ?thesis
      by (subst buy_retry.simps) (auto simp: keeps_permits_refl)
  next
    case True
    then have go: "i < maxBuyRetries cfg" and in_time: "\<not> 10000 < clock env (Suc i) - t0"
      by simp_all
    show ?thesis
    proof (cases "buySwap env i")
      case SwapThrows
      from "1.IH"(1) [OF go in_time this] logged have "keeps_permits st (snd (buy_retry cfg env t0 (Suc i) ?st'))"
        by (rule keeps_permits_trans [rotated])
      with SwapThrows go in_time show ?thesis
        by (subst buy_retry.simps) simp
    next
      case (SwapResult confirmed)
      show ?thesis
      proof (cases confirmed)
        case True
        with SwapResult go in_time logged show ?thesis
          by (subst buy_retry.simps) simp
      next
        case False
        from "1.IH"(2) [OF go in_time SwapResult False] logged
        have "keeps_permits st (snd (buy_retry cfg env t0 (Suc i) ?st'))"
          by (rule keeps_permits_trans [rotated])
        with SwapResult False go in_time show ?thesis
          by (subst buy_retry.simps) simp
      qed
    qed
  qed
qed

lemma buy_body_keeps_permits: "keeps_permits st (snd (buy_body cfg env st))"
proof -
  let ?r = "waitForBuySignal cfg (buyPrices env)"
  let ?st1 = "st\<lparr>trace := trace st @ map Slept (slept ?r)\<rparr>"
  have slept: "keeps_permits st ?st1"
    by (rule keeps_permits_log) auto
  have retry: "keeps_permits st (snd (buy_retry cfg env (clock env 0) 0 ?st1))"
    using slept buy_retry_keeps_permits by (rule keeps_permits_trans)
  have "snd (buy_body cfg env st) = st \<or> snd (buy_body cfg env st) = ?st1
      \<or> snd (buy_body cfg env st) = snd (buy_retry cfg env (clock env 0) 0 ?st1)"
    by (auto simp: buy_body_def Let_def split: sum.splits prod.splits)
  with slept retry show ?thesis
    by (auto simp: keeps_permits_refl)
qed

text \<open>C2. Every call of \<^verbatim>\<open>buy\<close> returns (it neither throws nor waits for a permit). A
  call that is not in the snipe list or is turned away by the admission check adds neither
  an \<open>Acquired\<close> nor a \<open>Released\<close> to the trace. Every other call acquires: the events it
  adds are one \<open>Acquired\<close>, later one \<open>Released\<close> as the last event, and no other of the
  two, whichever exit the \<^verbatim>\<open>try\<close> block takes (filter rejection, no buy signal, deadline,
  confirmed, retries exhausted, an exception caught); the semaphore is back at its
  value.\<close>

theorem buy_releases_permit_exactly_once:
  "\<exists>x st' evs. buy cfg env st = (BuyReturned x, st') \<and> trace st' = trace st @ evs
     \<and> semaphore st' = semaphore st
     \<and> (if useSnipeList cfg \<and> \<not> inSnipeList env \<or> buy_denied cfg st
         then Acquired \<notin> set evs \<and> Released \<notin> set evs
         else \<exists>pre mid. evs = pre @ [Acquired] @ mid @ [Released]
                \<and> Acquired \<notin> set (pre @ mid) \<and> Released \<notin> set (pre @ mid))"
proof (cases "useSnipeList cfg \<and> \<not> inSnipeList env")
  case True
  then have "buy cfg env st = (BuyReturned NotInSnipeList, st) \<and> trace st = trace st @ []"
    by (simp add: buy_def)
  with True show ?thesis
    by fastforce
next
  case listed: False
  define st0 where "st0 = (if autoBuyDelay cfg > 0 then sleep (autoBuyDelay cfg) st else st)"
  define pre where "pre = (if autoBuyDelay cfg > 0 then [Slept (autoBuyDelay cfg)] else [])"
  have buy_eq: "buy cfg env st =
      (if buy_denied cfg st0 then (BuyReturned TooManyTokens, st0)
       else case acquire st0 of
              None \<Rightarrow> (BuyBlocked, st0)
            | Some st1 \<Rightarrow>
                (case buy_body cfg env st1 of
                   (Inl e, st2) \<Rightarrow> (BuyReturned (BuyFailed e), release st2)
                 | (Inr x, st2) \<Rightarrow> (BuyReturned x, release st2)))"
    using listed by (simp only: buy_def Let_def st0_def if_False)
  have st0: "trace st0 = trace st @ pre" "semaphore st0 = semaphore st"
    "buy_denied cfg st0 = buy_denied cfg st"
    by (simp_all add: st0_def pre_def sleep_def buy_denied_def isLocked_def
        numberOfActionsBeingProcessed_def getValue_def)
  have pre: "Acquired \<notin> set pre" "Released \<notin> set pre"
    by (simp_all add: pre_def)
  show ?thesis
  proof (cases "buy_denied cfg st")
    case True
    with buy_eq st0(3) have "buy cfg env st = (BuyReturned TooManyTokens, st0)"
      by simp
    with True st0 pre show ?thesis
      by fastforce
  next
    case False
    then have free: "0 < semaphore st0"
      using st0(2) by (simp add: buy_denied_def isLocked_def)
    define st1 where "st1 = st0\<lparr>semaphore := semaphore st0 - 1, trace := trace st0 @ [Acquired]\<rparr>"
    define st2 where "st2 = snd (buy_body cfg env st1)"
    from free have acq: "acquire st0 = Some st1"
      by (simp add: acquire_def st1_def)
    from buy_body_keeps_permits [of st1 cfg env]
    obtain mid where mid: "trace st2 = trace st1 @ mid" "Acquired \<notin> set mid"
      "Released \<notin> set mid" "semaphore st2 = semaphore st1"
      unfolding keeps_permits_def st2_def by blast
    obtain r where body: "buy_body cfg env st1 = (r, st2)"
      unfolding st2_def by (cases "buy_body cfg env st1") simp
    have res: "buy cfg env st =
        (BuyReturned (case r of Inl e \<Rightarrow> BuyFailed e | Inr x \<Rightarrow> x), release st2)"
      using False st0(3) acq body unfolding buy_eq
      by (simp split: sum.splits)
    let ?evs = "pre @ [Acquired] @ mid @ [Released]"
    have tr: "trace (release st2) = trace st @ ?evs"
      using mid(1) st0(1) by (simp add: release_def st1_def)
    have sem: "semaphore (release st2) = semaphore st"
      using mid(4) st0(2) by (simp add: release_def st1_def)
    have "Acquired \<notin> set (pre @ mid)" "Released \<notin> set (pre @ mid)"
      using mid(2,3) pre by simp_all
    then have inner: "\<exists>p m. ?evs = p @ [Acquired] @ m @ [Released]
        \<and> Acquired \<notin> set (p @ m) \<and> Released \<notin> set (p @ m)"
      by blast
    have admitted: "\<not> (useSnipeList cfg \<and> \<not> inSnipeList env \<or> buy_denied cfg st)"
      using listed False by simp
    have branch: "if useSnipeList cfg \<and> \<not> inSnipeList env \<or> buy_denied cfg st
        then Acquired \<notin> set ?evs \<and> Released \<notin> set ?evs
        else \<exists>p m. ?evs = p @ [Acquired] @ m @ [Released]
               \<and> Acquired \<notin> set (p @ m) \<and> Released \<notin> set (p @ m)"
      by (subst if_not_P [OF admitted]) (rule inner)
    from res tr sem branch show ?thesis
      by blast
  qed
qed

theorem buy_releases_permit_exactly_once_witness:
  "fst (buy demo_config late_buy_env (initial_state demo_config)) = BuyReturned DeadlineExceeded
    \<and> trace (snd (buy demo_config late_buy_env (initial_state demo_config)))
        = [Acquired] @ replicate 34 (Slept 1000) @ [SwapAttempted Buy 0, Released]
    \<and> semaphore (snd (buy demo_config late_buy_env (initial_state demo_config))) = 1"
  using buy_releases_permit_exactly_once
    [of demo_config late_buy_env "initial_state demo_config"]
  by (simp add: buy_def buy_body_def buy_denied_def isLocked_def getValue_def acquire_def
      release_def numberOfActionsBeingProcessed_def filterMatch_def filter_loop.simps
      buy_retry.simps oversold_run late_buy_env_def initial_state_def demo_config_def)

section \<open>Properties of the sell pipeline\<close>

lemma sell_retry_later:
  "1 \<le> i \<Longrightarrow>
   \<exists>evs. trace (snd (sell_retry cfg env i st)) = trace st @ evs
     \<and> filter isSellSignalEvaluation evs = []
     \<and> sellExecutionCount (snd (sell_retry cfg env i st)) = sellExecutionCount st"
proof (induction cfg env i st rule: sell_retry.induct)
  case (1 cfg env i st)
  let ?st2 = "st\<lparr>trace := trace st @ [SwapAttempted Sell i]\<rparr>"
  show ?case
  proof (cases "i < maxSellRetries cfg")
    case False
    then show ?thesis
      by (subst (1 2) sell_retry.simps) simp
  next
    case True
    from "1.prems" have later: "\<not> i < 1" and next_later: "1 \<le> Suc i"
      by simp_all
    from later have eq: "(True, st) =
        (if i < 1
         then (case waitForSellSignal cfg (sellMint env) (sellQuotes env) (stopLossMap st) of
                 (shouldSell, m) \<Rightarrow>
                   (shouldSell, st\<lparr>stopLossMap := m, trace := trace st @ [EvaluatedSellSignal i]\<rparr>))
         else (True, st))"
      by simp
    have step: "\<exists>evs. trace (snd (sell_retry cfg env (Suc i) ?st2)) = trace st @ evs
        \<and> filter isSellSignalEvaluation evs = []
        \<and> sellExecutionCount (snd (sell_retry cfg env (Suc i) ?st2)) = sellExecutionCount st"
      if "sellSwap env i = SwapThrows \<or> sellSwap env i = SwapResult False"
    proof -
      have "\<exists>evs. trace (snd (sell_retry cfg env (Suc i) ?st2)) = trace ?st2 @ evs
        \<and> filter isSellSignalEvaluation evs = []
        \<and> sellExecutionCount (snd (sell_retry cfg env (Suc i) ?st2)) = sellExecutionCount ?st2"
        using that
      proof
        assume "sellSwap env i = SwapThrows"
        from "1.IH"(1) [OF True eq refl this next_later] show ?thesis
          by simp
      next
        assume "sellSwap env i = SwapResult False"
        from "1.IH"(2) [OF True eq refl this _ next_later] show ?thesis
          by simp
      qed
      then obtain evs where "trace (snd (sell_retry cfg env (Suc i) ?st2)) = trace ?st2 @ evs"
        "filter isSellSignalEvaluation evs = []"
        "sellExecutionCount (snd (sell_retry cfg env (Suc i) ?st2)) = sellExecutionCount ?st2"
        by blast
      then have "trace (snd (sell_retry cfg env (Suc i) ?st2)) = trace st @ (SwapAttempted Sell i # evs)
        \<and> filter isSellSignalEvaluation (SwapAttempted Sell i # evs) = []
        \<and> sellExecutionCount (snd (sell_retry cfg env (Suc i) ?st2)) = sellExecutionCount st"
        by simp
      then show ?thesis
        by blast
    qed
    show ?thesis
    proof (cases "sellSwap env i")
      case SwapThrows
      with step True later show ?thesis
        by (subst (1 2) sell_retry.simps) simp
    next
      case (SwapResult confirmed)
      show ?thesis
      proof (cases confirmed)
        case True
        have "trace ?st2 = trace st @ [SwapAttempted Sell i]
          \<and> filter isSellSignalEvaluation [SwapAttempted Sell i] = []"
          by simp
        with True SwapResult \<open>i < maxSellRetries cfg\<close> later show ?thesis
          by (subst (1 2) sell_retry.simps) auto
      next
        case False
        with step SwapResult True later show ?thesis
          by (subst (1 2) sell_retry.simps) simp
      qed
    qed
  qed
qed


lemma sell_retry_first:
  "\<exists>evs. trace (snd (sell_retry cfg env 0 st)) = trace st @ evs
     \<and> filter isSellSignalEvaluation evs
         = (if 1 \<le> maxSellRetries cfg then [EvaluatedSellSignal 0] else [])
     \<and> sellExecutionCount (snd (sell_retry cfg env 0 st)) = sellExecutionCount st"
proof (cases "0 < maxSellRetries cfg")
  case False
  then show ?thesis
    by (subst (1 2) sell_retry.simps) simp
next
  case True
  obtain shouldSell m where
    sig: "waitForSellSignal cfg (sellMint env) (sellQuotes env) (stopLossMap st) = (shouldSell, m)"
    by (cases "waitForSellSignal cfg (sellMint env) (sellQuotes env) (stopLossMap st)") auto
  let ?st1 = "st\<lparr>stopLossMap := m, trace := trace st @ [EvaluatedSellSignal 0]\<rparr>"
  let ?st2 = "?st1\<lparr>trace := trace ?st1 @ [SwapAttempted Sell 0]\<rparr>"
  have unfold: "sell_retry cfg env 0 st =
      (if \<not> shouldSell then (SellVetoed, ?st1)
       else case sellSwap env 0 of
              SwapThrows \<Rightarrow> sell_retry cfg env (Suc 0) ?st2
            | SwapResult confirmed \<Rightarrow>
                if confirmed then (SellConfirmed, ?st2) else sell_retry cfg env (Suc 0) ?st2)"
    using True sig by (subst sell_retry.simps) (simp split: swap_outcome.splits)
  from sell_retry_later [of "Suc 0" cfg env ?st2]
  obtain evs where later:
    "trace (snd (sell_retry cfg env (Suc 0) ?st2)) = trace ?st2 @ evs"
    "filter isSellSignalEvaluation evs = []"
    "sellExecutionCount (snd (sell_retry cfg env (Suc 0) ?st2)) = sellExecutionCount ?st2"
    by auto
  have "\<exists>evs. trace (snd (sell_retry cfg env 0 st)) = trace st @ evs
     \<and> filter isSellSignalEvaluation evs = [EvaluatedSellSignal 0]
     \<and> sellExecutionCount (snd (sell_retry cfg env 0 st)) = sellExecutionCount st"
  proof (cases shouldSell)
    case False
    with unfold have res: "sell_retry cfg env 0 st = (SellVetoed, ?st1)"
      by simp
    show ?thesis
      unfolding res by (rule exI [of _ "[EvaluatedSellSignal 0]"]) simp
  next
    case go: True
    consider (again) "sell_retry cfg env 0 st = sell_retry cfg env (Suc 0) ?st2"
      | (sold) "sell_retry cfg env 0 st = (SellConfirmed, ?st2)"
      using unfold go by (cases "sellSwap env 0") (auto split: if_splits)
    then show ?thesis
    proof cases
      case again
      show ?thesis
        unfolding again
        by (rule exI [of _ "EvaluatedSellSignal 0 # SwapAttempted Sell 0 # evs"])
          (use later in simp)
    next
      case sold
      show ?thesis
        unfolding sold
        by (rule exI [of _ "[EvaluatedSellSignal 0, SwapAttempted Sell 0]"]) simp
    qed
  qed
  with True show ?thesis
    by simp
qed

text \<open>C3 (amended). In every call of \<^verbatim>\<open>sell\<close> the events the call adds to the trace hold
  at most one evaluation of the exit signal, and it is the one of attempt 0: exactly one
  when the pool data is found, the balance is not zero, the market lookup does not throw
  and \<open>maxSellRetries\<close> is at least 1, none otherwise. The counter of sells is back at its
  value.\<close>

theorem sell_evaluates_signal_at_most_once:
  "\<exists>evs. trace (snd (sell cfg env st)) = trace st @ evs
     \<and> filter isSellSignalEvaluation evs
         = (if poolData env = PoolFound \<and> rawAmount env \<noteq> 0 \<and> \<not> marketFails env
               \<and> 1 \<le> maxSellRetries cfg
            then [EvaluatedSellSignal 0] else [])
     \<and> sellExecutionCount (snd (sell cfg env st)) = sellExecutionCount st"
proof -
  let ?st0 = "sell_enter st"
  let ?st1 = "if autoSellDelay cfg > 0 then sleep (autoSellDelay cfg) ?st0 else ?st0"
  have delay: "\<exists>pre. trace ?st1 = trace st @ pre \<and> filter isSellSignalEvaluation pre = []
      \<and> sellExecutionCount ?st1 = sellExecutionCount st + 1"
    by (simp add: sleep_def sell_enter_def)
  then obtain pre where pre: "trace ?st1 = trace st @ pre"
    "filter isSellSignalEvaluation pre = []" "sellExecutionCount ?st1 = sellExecutionCount st + 1"
    by blast
  from sell_retry_first [of cfg env ?st1]
  obtain evs where evs: "trace (snd (sell_retry cfg env 0 ?st1)) = trace ?st1 @ evs"
    "filter isSellSignalEvaluation evs
       = (if 1 \<le> maxSellRetries cfg then [EvaluatedSellSignal 0] else [])"
    "sellExecutionCount (snd (sell_retry cfg env 0 ?st1)) = sellExecutionCount ?st1"
    by blast
  show ?thesis
  proof (cases "poolData env = PoolFound \<and> rawAmount env \<noteq> 0 \<and> \<not> marketFails env")
    case True
    then have res: "sell cfg env st =
        (fst (sell_retry cfg env 0 ?st1), sell_leave (snd (sell_retry cfg env 0 ?st1)))"
      by (simp add: sell_def sell_body_def Let_def split: prod.splits)
    show ?thesis
      unfolding res
      by (rule exI [of _ "pre @ evs"]) (use True pre evs in \<open>simp add: sell_leave_def\<close>)
  next
    case False
    then have body: "snd (sell_body cfg env ?st0) = ?st0 \<or> snd (sell_body cfg env ?st0) = ?st1"
      by (cases "poolData env") (auto simp: sell_body_def Let_def)
    have res: "snd (sell cfg env st) = sell_leave (snd (sell_body cfg env ?st0))"
      by (simp add: sell_def split: prod.splits)
    from body show ?thesis
    proof
      assume early: "snd (sell_body cfg env ?st0) = ?st0"
      show ?thesis
        unfolding res early
        by (rule exI [of _ "[]"]) (use False in \<open>auto simp: sell_leave_def sell_enter_def\<close>)
    next
      assume delayed: "snd (sell_body cfg env ?st0) = ?st1"
      show ?thesis
        unfolding res delayed
        by (rule exI [of _ pre]) (use False pre in \<open>auto simp: sell_leave_def\<close>)
    qed
  qed
qed

theorem sell_evaluates_signal_at_most_once_witness:
  "filter isSellSignalEvaluation
     (trace (snd (sell demo_config failing_sell_env (initial_state demo_config))))
    = [EvaluatedSellSignal 0]"
  using sell_evaluates_signal_at_most_once
    [of demo_config failing_sell_env "initial_state demo_config"]
  by (auto simp: failing_sell_env_def initial_state_def demo_config_def)

text \<open>C3 as stated fails when the market lookup throws (the outer \<^verbatim>\<open>catch\<close> logs it) and
  when the pool cache has no entry for the mint (\<^verbatim>\<open>sell\<close> returns at line 389): with
  \<open>maxSellRetries = 3\<close> and a balance of 5 raw units, the exit signal is never
  evaluated.\<close>

theorem sell_without_market_counterexample:
  "1 \<le> maxSellRetries demo_config \<and> rawAmount no_market_env \<noteq> 0
    \<and> fst (sell demo_config no_market_env (initial_state demo_config))
        = SellFailed (JsError ''market'')
    \<and> filter isSellSignalEvaluation
         (trace (snd (sell demo_config no_market_env (initial_state demo_config)))) = []
    \<and> rawAmount no_pool_env \<noteq> 0
    \<and> fst (sell demo_config no_pool_env (initial_state demo_config)) = NoPoolData
    \<and> filter isSellSignalEvaluation
         (trace (snd (sell demo_config no_pool_env (initial_state demo_config)))) = []"
  by (simp add: sell_def sell_body_def sell_enter_def sell_leave_def no_pool_env_def
      no_market_env_def initial_state_def demo_config_def)

text \<open>When \<^verbatim>\<open>waitForSellSignal\<close> answers false, \<^verbatim>\<open>sell\<close> returns at line 416, before the
  first \<^verbatim>\<open>swap\<close>: whatever the pool cache, the balance and the market lookup are, the
  call adds no attempt to submit a transaction to the trace, and when it reaches the
  loop of attempts it ends vetoed with the map that \<^verbatim>\<open>waitForSellSignal\<close> left.\<close>

lemma sell_vetoed:
  assumes "waitForSellSignal cfg (sellMint env) (sellQuotes env) (stopLossMap st) = (False, m)"
  shows "\<exists>evs. trace (snd (sell cfg env st)) = trace st @ evs \<and> filter isSwapAttempt evs = []"
    and "poolData env = PoolFound \<Longrightarrow> rawAmount env \<noteq> 0 \<Longrightarrow> \<not> marketFails env
      \<Longrightarrow> 1 \<le> maxSellRetries cfg
      \<Longrightarrow> fst (sell cfg env st) = SellVetoed \<and> stopLossMap (snd (sell cfg env st)) = m"
proof -
  define st0 where "st0 = (if autoSellDelay cfg > 0 then sleep (autoSellDelay cfg) (sell_enter st)
    else sell_enter st)"
  define pre where "pre = (if autoSellDelay cfg > 0 then [Slept (autoSellDelay cfg)] else [])"
  have st0: "trace st0 = trace st @ pre" "stopLossMap st0 = stopLossMap st"
    "filter isSwapAttempt pre = []"
    by (simp_all add: st0_def pre_def sleep_def sell_enter_def)
  let ?st1 = "st0\<lparr>stopLossMap := m, trace := trace st0 @ [EvaluatedSellSignal 0]\<rparr>"
  have retry: "sell_retry cfg env 0 st0 =
      (if 0 < maxSellRetries cfg then (SellVetoed, ?st1) else (SellRetriesExhausted, st0))"
    using assms st0(2) by (subst sell_retry.simps) simp
  have body: "sell_body cfg env (sell_enter st) =
      (case poolData env of
         PoolLookupThrows \<Rightarrow> (SellFailed (JsError ''pool''), sell_enter st)
       | PoolNotFound \<Rightarrow> (NoPoolData, sell_enter st)
       | PoolFound \<Rightarrow>
           if rawAmount env = 0 then (EmptyBalance, sell_enter st)
           else if marketFails env then (SellFailed (JsError ''market''), st0)
           else if 0 < maxSellRetries cfg then (SellVetoed, ?st1)
           else (SellRetriesExhausted, st0))"
    unfolding sell_body_def Let_def st0_def [symmetric] retry
    by (simp split: pool_lookup.splits)
  have "snd (sell_body cfg env (sell_enter st)) = sell_enter st
      \<or> snd (sell_body cfg env (sell_enter st)) = st0
      \<or> snd (sell_body cfg env (sell_enter st)) = ?st1"
    unfolding body by (simp split: pool_lookup.splits)
  moreover have res: "snd (sell cfg env st) = sell_leave (snd (sell_body cfg env (sell_enter st)))"
    by (simp add: sell_def split: prod.splits)
  ultimately consider "trace (snd (sell cfg env st)) = trace st @ []"
    | "trace (snd (sell cfg env st)) = trace st @ pre"
    | "trace (snd (sell cfg env st)) = trace st @ (pre @ [EvaluatedSellSignal 0])"
    using st0(1) by (auto simp: sell_leave_def sell_enter_def)
  then show "\<exists>evs. trace (snd (sell cfg env st)) = trace st @ evs \<and> filter isSwapAttempt evs = []"
  proof cases
    case 1
    then show ?thesis by (intro exI [of _ "[]"]) simp
  next
    case 2
    then show ?thesis using st0(3) by (intro exI [of _ pre]) simp
  next
    case 3
    then show ?thesis
      using st0(3) by (intro exI [of _ "pre @ [EvaluatedSellSignal 0]"]) simp
  qed
  show "fst (sell cfg env st) = SellVetoed \<and> stopLossMap (snd (sell cfg env st)) = m"
    if "poolData env = PoolFound" "rawAmount env \<noteq> 0" "\<not> marketFails env"
      "1 \<le> maxSellRetries cfg"
    using that unfolding sell_def body by (simp add: sell_leave_def)
qed

section \<open>Properties of the drawdown abort\<close>

text \<open>The scenario of section 4.4: a threshold of 50 percent, an initial amount of one
  quote token, a floor of 0.9 in the map and a quote of 0.4 at the first tick. The
  answer is false and the map has lost the entry.\<close>

lemma crashed_quotes_are_vetoed:
  "waitForSellSignal demo_config ''MINT'' crashed_quotes [''MINT'' \<mapsto> 900000000]
    = (False, Map.empty)"
  by (simp add: waitForSellSignal_def sell_loop.simps sell_tick_def demo_thresholds
      crashed_quotes_def Let_def
      demo_config_def [THEN arg_cong [of _ _ priceCheckDuration]]
      demo_config_def [THEN arg_cong [of _ _ priceCheckInterval]])

text \<open>C6 (amended). With a drawdown abort configured
  (\<open>skipSellingIfLostMoreThan > 0\<close>) and monitoring enabled, let the loop of
  \<^verbatim>\<open>waitForSellSignal\<close> reach tick \<open>k\<close> (the first tick, or a later one below
  \<open>priceCheckDuration / priceCheckInterval\<close> that every earlier tick let through) and let
  the quote at that tick be below \<open>stopSellingAmount\<close>, which is
  \<open>quoteAmount * (100 - threshold) / 100\<close> with the fraction of a raw unit cut off
  (\<^verbatim>\<open>quoteAmount.mul(100 - skipSellingIfLostMoreThan).numerator.div(new BN(100))\<close>, lines 671
  to 673; see \<open>stopSellingAmount_bounds\<close>). Then the tick ends in \<^verbatim>\<open>return false\<close> whatever
  the floor and the map are, so also when the quote is below the floor: the stop loss,
  tested after the abort, is not reached. \<^verbatim>\<open>waitForSellSignal\<close> returns false and leaves no
  entry for the mint, also when earlier ticks had raised the floor. The call of \<^verbatim>\<open>sell\<close>
  that made the evaluation attempts no swap, and when it reached the loop of attempts
  (pool data found, balance not zero, market found, at least one attempt allowed) it
  ends vetoed with no entry for the mint.\<close>

theorem drawdown_abort_vetoes_sell:
  assumes "0 < skipSellingIfLostMoreThan cfg"
    and "priceCheckDuration cfg \<noteq> 0" and "priceCheckInterval cfg \<noteq> 0"
    and "k = 0 \<or> of_nat k < (of_nat (priceCheckDuration cfg) / of_nat (priceCheckInterval cfg) :: rat)"
    and "sell_ticks cfg (sellMint env) (sellQuotes env) k
          (floor_at_entry cfg (sellMint env) (stopLossMap st))
          (map_at_entry cfg (sellMint env) (stopLossMap st)) = Some (stopLossFloor, m)"
    and "sellQuotes env k = Quote amountOut"
    and "amountOut < stopSellingAmount cfg"
  shows "fst (sell_tick cfg (sellMint env) anyFloor anyMap (Quote amountOut)) = SellReturnFalse
    \<and> fst (waitForSellSignal cfg (sellMint env) (sellQuotes env) (stopLossMap st)) = False
    \<and> snd (waitForSellSignal cfg (sellMint env) (sellQuotes env) (stopLossMap st)) (sellMint env)
        = None
    \<and> (\<exists>evs. trace (snd (sell cfg env st)) = trace st @ evs \<and> filter isSwapAttempt evs = [])
    \<and> (poolData env = PoolFound \<and> rawAmount env \<noteq> 0 \<and> \<not> marketFails env
          \<and> 1 \<le> maxSellRetries cfg \<longrightarrow>
        fst (sell cfg env st) = SellVetoed
        \<and> stopLossMap (snd (sell cfg env st)) (sellMint env) = None)"
proof -
  let ?w = "waitForSellSignal cfg (sellMint env) (sellQuotes env) (stopLossMap st)"
  let ?t = "of_nat (priceCheckDuration cfg) / of_nat (priceCheckInterval cfg) :: rat"
  have tick: "fst (sell_tick cfg (sellMint env) anyFloor anyMap (Quote amountOut)) = SellReturnFalse"
    using assms(1,7) by (simp add: sell_tick_def Let_def)
  have "?w = sell_loop cfg (sellMint env) (sellQuotes env) ?t 0
      (floor_at_entry cfg (sellMint env) (stopLossMap st))
      (map_at_entry cfg (sellMint env) (stopLossMap st))"
    using assms(2,3) by (rule waitForSellSignal_enabled)
  also have "\<dots> = sell_loop cfg (sellMint env) (sellQuotes env) ?t k stopLossFloor m"
    using assms(5,4) by (rule sell_loop_after_ticks)
  finally have w: "?w = sell_loop cfg (sellMint env) (sellQuotes env) ?t k stopLossFloor m" .
  have answer: "fst ?w = False" and entry: "snd ?w (sellMint env) = None"
    unfolding w using assms(1,6,7) by (rule sell_loop_abort)+
  from answer have veto: "?w = (False, snd ?w)"
    by (simp add: prod_eq_iff)
  have quiet: "\<exists>evs. trace (snd (sell cfg env st)) = trace st @ evs \<and> filter isSwapAttempt evs = []"
    using veto by (rule sell_vetoed(1))
  have "fst (sell cfg env st) = SellVetoed \<and> stopLossMap (snd (sell cfg env st)) (sellMint env) = None"
    if "poolData env = PoolFound" "rawAmount env \<noteq> 0" "\<not> marketFails env" "1 \<le> maxSellRetries cfg"
    using sell_vetoed(2) [OF veto that] entry by simp
  with tick answer entry quiet show ?thesis
    by blast
qed

theorem drawdown_abort_vetoes_sell_witness:
  "0 < skipSellingIfLostMoreThan demo_config
    \<and> priceCheckDuration demo_config \<noteq> 0 \<and> priceCheckInterval demo_config \<noteq> 0
    \<and> of_nat (Suc 0)
        < (of_nat (priceCheckDuration demo_config) / of_nat (priceCheckInterval demo_config) :: rat)
    \<and> floor_at_entry demo_config ''MINT'' Map.empty = 900000000
    \<and> sell_ticks demo_config ''MINT'' late_crash_quotes (Suc 0)
          (floor_at_entry demo_config ''MINT'' Map.empty)
          (map_at_entry demo_config ''MINT'' Map.empty)
        = Some (990000000, [''MINT'' \<mapsto> 990000000])
    \<and> late_crash_quotes (Suc 0) = Quote 400000000
    \<and> 400000000 < stopSellingAmount demo_config
    \<and> 400000000 < (990000000 :: int)
    \<and> fst (sell_tick demo_config ''MINT'' 990000000 [''MINT'' \<mapsto> 990000000] (Quote 400000000))
        = SellReturnFalse
    \<and> fst (waitForSellSignal demo_config ''MINT'' late_crash_quotes Map.empty) = False
    \<and> snd (waitForSellSignal demo_config ''MINT'' late_crash_quotes Map.empty) ''MINT'' = None
    \<and> poolData late_crash_env = PoolFound \<and> rawAmount late_crash_env \<noteq> 0
    \<and> \<not> marketFails late_crash_env \<and> 1 \<le> maxSellRetries demo_config
    \<and> fst (sell demo_config late_crash_env (initial_state demo_config)) = SellVetoed
    \<and> stopLossMap (snd (sell demo_config late_crash_env (initial_state demo_config))) ''MINT''
        = None
    \<and> filter isSwapAttempt
         (trace (snd (sell demo_config late_crash_env (initial_state demo_config)))) = []"
  using drawdown_abort_vetoes_sell
    [where cfg = demo_config and k = "Suc 0" and env = late_crash_env
      and st = "initial_state demo_config" and stopLossFloor = 990000000
      and m = "[''MINT'' \<mapsto> 990000000]" and amountOut = 400000000
      and anyFloor = 990000000 and anyMap = "[''MINT'' \<mapsto> 990000000]"]
  by (simp add: floor_at_entry_def map_at_entry_def sell_tick_def demo_thresholds
      late_crash_quotes_def late_crash_env_def initial_state_def Let_def
      demo_config_def [THEN arg_cong [of _ _ priceCheckDuration]]
      demo_config_def [THEN arg_cong [of _ _ priceCheckInterval]]
      demo_config_def [THEN arg_cong [of _ _ maxSellRetries]])

text \<open>C6 as stated fails when \<open>initialQuoteAmount * (1 - threshold / 100)\<close> is not a whole
  number of raw units and the quote is that number with its fraction cut off. With a
  quote amount of 1000000001 raw units and a threshold of 50 percent, the quote
  500000000 is below 500000000.5, but not below the 500000000 that line 677 compares
  it with: the abort does not fire, the quote is below the floor of 900000001, the
  stop loss of lines 704 to 713 ends the loop, \<^verbatim>\<open>waitForSellSignal\<close> returns true and
  \<^verbatim>\<open>sell\<close> submits the swap.\<close>

theorem drawdown_abort_threshold_counterexample:
  "0 < skipSellingIfLostMoreThan odd_config
    \<and> quoteAmount odd_config = 1000000001 \<and> skipSellingIfLostMoreThan odd_config = 50
    \<and> half_quotes 0 = Quote 500000000
    \<and> spec_abort_condition odd_config 500000000
    \<and> stopSellingAmount odd_config = 500000000
    \<and> 500000000 < initialStopLoss odd_config
    \<and> fst (waitForSellSignal odd_config ''MINT'' half_quotes Map.empty) = True
    \<and> fst (sell odd_config half_sell_env (initial_state odd_config)) = SellConfirmed
    \<and> trace (snd (sell odd_config half_sell_env (initial_state odd_config)))
        = [EvaluatedSellSignal 0, SwapAttempted Sell 0]"
  by (simp add: spec_abort_condition_def waitForSellSignal_def sell_loop.simps sell_tick_def
      odd_thresholds half_quotes_def half_sell_env_def initial_state_def Let_def
      sell_def sell_body_def sell_enter_def sell_leave_def sell_retry.simps)

section \<open>Properties of the admission control\<close>






end
